theory Spec2Isabelle
  imports Main "HOL-Library.Signed_Division"
begin

section \<open>Decimal rendering of integers\<close>

text \<open>
  Both monitors print integer components into the uptime string: JavaScript by
  \<^verbatim>\<open>seconds + 's'\<close>, PowerShell by \<^verbatim>\<open>"{0}s" -f $TimeSpan.Seconds\<close>. For an integer both
  produce its decimal digits, with a leading minus sign when it is negative. JavaScript
  numbers are doubles; they are modelled as \<^typ>\<open>int\<close>, which is exact for the
  millisecond differences of \<^verbatim>\<open>Date.now()\<close> (integers below \<open>2^53\<close>).
\<close>

definition digit_char :: "nat \<Rightarrow> char" where
  "digit_char d = ''0123456789'' ! d"

function string_of_nat :: "nat \<Rightarrow> string" where
  "string_of_nat n =
     (if n < 10 then [digit_char n]
      else string_of_nat (n div 10) @ [digit_char (n mod 10)])"
  by pat_completeness auto
termination
  by (relation "measure (\<lambda>n. n)") auto

declare string_of_nat.simps [simp del]

definition string_of_int :: "int \<Rightarrow> string" where
  "string_of_int i =
     (if i < 0 then CHR ''-'' # string_of_nat (nat (- i)) else string_of_nat (nat i))"

section \<open>Duration formatting\<close>

subsection \<open>Renderer: \<^verbatim>\<open>formatDuration(ms)\<close> (src/renderer/js/app.js)\<close>

text \<open>
  \<^verbatim>\<open>Math.floor(a / b)\<close> is \<open>div\<close> on \<^typ>\<open>int\<close> (both round towards minus infinity);
  JavaScript's \<^verbatim>\<open>%\<close> takes the sign of the dividend, which is \<open>smod\<close>.
\<close>

definition formatDuration :: "int \<Rightarrow> string" where
  "formatDuration ms =
     (let seconds = ms div 1000 in
      if seconds < 60 then string_of_int seconds @ ''s''
      else
        let minutes = seconds div 60 in
        if minutes < 60 then
          string_of_int minutes @ ''m '' @ string_of_int (seconds smod 60) @ ''s''
        else
          let hours = minutes div 60 in
          if hours < 24 then
            string_of_int hours @ ''h '' @ string_of_int (minutes smod 60) @ ''m''
          else
            let days = hours div 24 in
            string_of_int days @ ''d '' @ string_of_int (hours smod 24) @ ''h'')"

subsection \<open>Scripted monitor: \<^verbatim>\<open>Get-DurationString\<close> (src/monitor.ps1)\<close>

text \<open>
  A .NET \<^verbatim>\<open>TimeSpan\<close> is a signed count of 100-nanosecond ticks. Its integer components
  use C#'s truncating division and remainder (\<open>sdiv\<close>, \<open>smod\<close>); a test
  \<^verbatim>\<open>TotalDays -ge 1\<close> holds exactly when a whole day of ticks has elapsed, and likewise for
  hours and minutes.
\<close>

type_synonym TimeSpan = int

definition TicksPerMillisecond :: int where "TicksPerMillisecond = 10000"
definition TicksPerSecond :: int where "TicksPerSecond = 10000000"
definition TicksPerMinute :: int where "TicksPerMinute = 600000000"
definition TicksPerHour :: int where "TicksPerHour = 36000000000"
definition TicksPerDay :: int where "TicksPerDay = 864000000000"

definition Days :: "TimeSpan \<Rightarrow> int" where
  "Days t = t sdiv TicksPerDay"

definition Hours :: "TimeSpan \<Rightarrow> int" where
  "Hours t = (t sdiv TicksPerHour) smod 24"

definition Minutes :: "TimeSpan \<Rightarrow> int" where
  "Minutes t = (t sdiv TicksPerMinute) smod 60"

definition Seconds :: "TimeSpan \<Rightarrow> int" where
  "Seconds t = (t sdiv TicksPerSecond) smod 60"

definition Get_DurationString :: "TimeSpan \<Rightarrow> string" where
  "Get_DurationString t =
     (if TicksPerDay \<le> t then
        string_of_int (Days t) @ ''d '' @ string_of_int (Hours t) @ ''h '' @
        string_of_int (Minutes t) @ ''m''
      else if TicksPerHour \<le> t then
        string_of_int (Hours t) @ ''h '' @ string_of_int (Minutes t) @ ''m''
      else if TicksPerMinute \<le> t then
        string_of_int (Minutes t) @ ''m '' @ string_of_int (Seconds t) @ ''s''
      else string_of_int (Seconds t) @ ''s'')"

subsection \<open>The bucketing policy as the specification words it\<close>

text \<open>
  Largest unit first, at most two units, every component the floor of what remains of the
  span after the larger unit has been taken out. The argument is in milliseconds.
\<close>

definition bucket_policy :: "int \<Rightarrow> string" where
  "bucket_policy d =
     (if d < 60 * 1000 then string_of_int (d div 1000) @ ''s''
      else if d < 60 * 60 * 1000 then
        string_of_int (d div 60000) @ ''m '' @ string_of_int (d mod 60000 div 1000) @ ''s''
      else if d < 24 * 60 * 60 * 1000 then
        string_of_int (d div 3600000) @ ''h '' @
        string_of_int (d mod 3600000 div 60000) @ ''m''
      else
        string_of_int (d div 86400000) @ ''d '' @
        string_of_int (d mod 86400000 div 3600000) @ ''h'')"

section \<open>Hosts\<close>

text \<open>
  A host as both monitors read it. \<open>'v\<close> is the type of the values the monitors only
  carry along (name, icon, position); \<^verbatim>\<open>null\<close> is \<open>None\<close>. Further properties of a
  JavaScript node object (SSH settings, link attributes, ...) live in the record's
  extension.
\<close>

record 'v node =
  node_id :: string
  name :: 'v
  address :: "string option"
  port :: "int option"
  primaryParentId :: "string option"
  secondaryParentId :: "string option"
  icon :: 'v
  iconType :: 'v
  node_x :: 'v
  node_y :: 'v

text \<open>The record the scripted monitor publishes for one host (\<^verbatim>\<open>$finalResults\<close>).\<close>

record 'v resolved = "'v node" +
  status :: "bool option"
  activeParentId :: "string option"
  uptime :: string

text \<open>
  Network I/O, as a log of the calls issued: an ICMP echo or a TCP connect, each with its
  target and timeout in milliseconds. The network is an oracle that answers a call given
  the calls issued before it, so two probes of one target may differ.
\<close>

datatype io = Ping "string option" nat | TcpConnect "string option" int nat

type_synonym net = "io list \<Rightarrow> io \<Rightarrow> bool"

definition target :: "io \<Rightarrow> string option" where
  "target c = (case c of Ping a _ \<Rightarrow> a | TcpConnect a _ _ \<Rightarrow> a)"

section \<open>The scripted monitor (src/monitor.ps1)\<close>

subsection \<open>Hashtables\<close>

text \<open>
  A hashtable literal is a \<^verbatim>\<open>Hashtable\<close> whose string keys compare without regard
  to case; a key is stored under its lower-case form (ASCII letters; other characters are
  kept). Indexing a missing key yields \<^verbatim>\<open>$null\<close>.
\<close>

definition lower_char :: "char \<Rightarrow> char" where
  "lower_char c =
     (let n = (of_char c :: nat) in if 65 \<le> n \<and> n \<le> 90 then char_of (n + 32) else c)"

definition hkey :: "string \<Rightarrow> string" where
  "hkey k = map lower_char k"

type_synonym 'a hashtable = "string \<rightharpoonup> 'a"

definition Item :: "'a hashtable \<Rightarrow> string \<Rightarrow> 'a option" where
  "Item h k = h (hkey k)"

definition ContainsKey :: "'a hashtable \<Rightarrow> string \<Rightarrow> bool" where
  "ContainsKey h k = (h (hkey k) \<noteq> None)"

definition set_Item :: "'a hashtable \<Rightarrow> string \<Rightarrow> 'a \<Rightarrow> 'a hashtable" where
  "set_Item h k v = h(hkey k \<mapsto> v)"

subsection \<open>Configuration\<close>

definition scanIntervalMs :: nat where "scanIntervalMs = 1000"
definition pingTimeoutMs :: nat where "pingTimeoutMs = 300"
definition portTimeoutMs :: nat where "portTimeoutMs = 300"

text \<open>
  A node as \<^verbatim>\<open>ConvertFrom-Json\<close> delivers it. The port of the JSON document is absent or
  \<^verbatim>\<open>null\<close>, a string, or a whole number.
\<close>

datatype raw_port = PortNull | PortString string | PortNumber int

record 'v raw_node =
  raw_id :: string
  raw_name :: 'v
  raw_address :: "string option"
  raw_port :: raw_port
  raw_primaryParentId :: "string option"
  raw_secondaryParentId :: "string option"
  raw_icon :: 'v
  raw_iconType :: 'v
  raw_x :: 'v
  raw_y :: 'v

datatype cast_error = InvalidCast string | OutOfRange int

text \<open>
  \<^verbatim>\<open>if ($null -ne $n.port -and $n.port -ne '') { [int]$n.port } else { $null }\<close>.
  PowerShell converts the right operand of \<^verbatim>\<open>-ne\<close> to the type of the left one: against a
  string \<^verbatim>\<open>''\<close> stays the empty string, against a number it becomes \<open>0\<close>. The cast
  \<^verbatim>\<open>[int]\<close> of a string is .NET's; it is the parameter \<open>toInt\<close>, \<open>None\<close> where the cast
  raises. The cast of a number raises when the number is outside the 32-bit range.
\<close>

definition normalizePort :: "(string \<Rightarrow> int option) \<Rightarrow> raw_port \<Rightarrow> cast_error + int option" where
  "normalizePort toInt p =
     (case p of
        PortNull \<Rightarrow> Inr None
      | PortString s \<Rightarrow>
          if s \<noteq> [] then (case toInt s of Some i \<Rightarrow> Inr (Some i) | None \<Rightarrow> Inl (InvalidCast s))
          else Inr None
      | PortNumber i \<Rightarrow>
          if i \<noteq> 0 then
            (if - 2147483648 \<le> i \<and> i \<le> 2147483647 then Inr (Some i)
             else Inl (OutOfRange i))
          else Inr None)"

text \<open>
  \<^verbatim>\<open>if ($n.primaryParentId -and $n.primaryParentId -ne '') { ... } else { $null }\<close>: a
  string is true when it is not empty, so both tests of the condition ask for a string
  that is not empty.
\<close>

definition normalizeParent :: "string option \<Rightarrow> string option" where
  "normalizeParent p =
     (case p of None \<Rightarrow> None | Some s \<Rightarrow> if s \<noteq> [] \<and> s \<noteq> [] then Some s else None)"

definition normalizeNode :: "(string \<Rightarrow> int option) \<Rightarrow> 'v raw_node \<Rightarrow> cast_error + 'v node" where
  "normalizeNode toInt n =
     (case normalizePort toInt (raw_port n) of
        Inl e \<Rightarrow> Inl e
      | Inr p \<Rightarrow>
          Inr \<lparr> node_id = raw_id n,
                name = raw_name n,
                address = raw_address n,
                port = p,
                primaryParentId = normalizeParent (raw_primaryParentId n),
                secondaryParentId = normalizeParent (raw_secondaryParentId n),
                icon = raw_icon n,
                iconType = raw_iconType n,
                node_x = raw_x n,
                node_y = raw_y n \<rparr>)"

subsection \<open>Probes\<close>

text \<open>
  \<^verbatim>\<open>[string]::IsNullOrWhiteSpace\<close>: \<^verbatim>\<open>$null\<close>, or every character is white space (for the
  characters below 256: tab to carriage return, space, next line, no-break space).
\<close>

definition IsWhiteSpace :: "char \<Rightarrow> bool" where
  "IsWhiteSpace c =
     (let n = (of_char c :: nat) in (9 \<le> n \<and> n \<le> 13) \<or> n = 32 \<or> n = 133 \<or> n = 160)"

definition IsNullOrWhiteSpace :: "string option \<Rightarrow> bool" where
  "IsNullOrWhiteSpace a = (case a of None \<Rightarrow> True | Some s \<Rightarrow> list_all IsWhiteSpace s)"

text \<open>
  Both probes return the answer together with the extended I/O log. Every exception of
  the network call is caught and becomes \<^verbatim>\<open>$false\<close>, so the oracle's answer is a boolean.
\<close>

definition Test_PingFast :: "net \<Rightarrow> io list \<Rightarrow> string option \<Rightarrow> nat \<Rightarrow> bool \<times> io list" where
  "Test_PingFast net log Address TimeoutMs =
     (if IsNullOrWhiteSpace Address then (False, log)
      else (net log (Ping Address TimeoutMs), log @ [Ping Address TimeoutMs]))"

text \<open>\<^verbatim>\<open>-not $Port\<close> holds for \<^verbatim>\<open>$null\<close> and for \<open>0\<close>.\<close>

definition Test_PortFast ::
  "net \<Rightarrow> io list \<Rightarrow> string option \<Rightarrow> int option \<Rightarrow> nat \<Rightarrow> bool \<times> io list" where
  "Test_PortFast net log Address Port TimeoutMs =
     (case Port of
        None \<Rightarrow> (False, log)
      | Some p \<Rightarrow>
          if IsNullOrWhiteSpace Address \<or> p = 0 then (False, log)
          else (net log (TcpConnect Address p TimeoutMs),
                log @ [TcpConnect Address p TimeoutMs]))"

text \<open>One iteration of the \<^verbatim>\<open># Perform checks\<close> loop, and the loop.\<close>

definition checkEntry ::
  "net \<Rightarrow> ('v, 'z) node_scheme \<Rightarrow> bool hashtable \<times> io list \<Rightarrow> bool hashtable \<times> io list" where
  "checkEntry net entry acc =
     (let (statuses, log) = acc in
      if IsNullOrWhiteSpace (address entry) then (set_Item statuses (node_id entry) False, log)
      else
        let (up, log') =
              (if port entry \<noteq> None
               then Test_PortFast net log (address entry) (port entry) portTimeoutMs
               else Test_PingFast net log (address entry) pingTimeoutMs)
        in (set_Item statuses (node_id entry) up, log'))"

fun performChecks ::
  "net \<Rightarrow> ('v, 'z) node_scheme list \<Rightarrow> bool hashtable \<times> io list \<Rightarrow> bool hashtable \<times> io list" where
  "performChecks net [] acc = acc"
| "performChecks net (entry # nodes) acc = performChecks net nodes (checkEntry net entry acc)"

subsection \<open>State tracker\<close>

text \<open>Times are \<^verbatim>\<open>DateTime\<close> ticks; their difference is a \<^verbatim>\<open>TimeSpan\<close>.\<close>

record HostState =
  Status :: "bool option"
  ChangeTime :: int

text \<open>
  Lines 132 to 142. The result is the updated store together with the entry of the host
  after the update, the one \<^verbatim>\<open>$stateStore[$entry.id].ChangeTime\<close> is read from.
\<close>

definition trackState ::
  "HostState hashtable \<Rightarrow> string \<Rightarrow> bool option \<Rightarrow> int \<Rightarrow> HostState hashtable \<times> HostState" where
  "trackState stateStore i isUp now =
     (case Item stateStore i of
        None \<Rightarrow>
          (let st = \<lparr> Status = isUp, ChangeTime = now \<rparr> in (set_Item stateStore i st, st))
      | Some st \<Rightarrow>
          if Status st \<noteq> isUp
          then (let st' = st \<lparr> Status := isUp, ChangeTime := now \<rparr>
                in (set_Item stateStore i st', st'))
          else (stateStore, st))"

subsection \<open>Failover\<close>

text \<open>
  Lines 148 to 152: a parent counts as up when its id is a true value (a string that is
  not empty), is a key of the statuses, and maps to true.
\<close>

definition parentUp :: "bool hashtable \<Rightarrow> string option \<Rightarrow> bool" where
  "parentUp statuses parentId =
     (case parentId of
        None \<Rightarrow> False
      | Some p \<Rightarrow>
          if p \<noteq> [] \<and> ContainsKey statuses p
          then (case Item statuses p of Some b \<Rightarrow> b | None \<Rightarrow> False)
          else False)"

definition resolveActiveParent :: "('v, 'z) node_scheme \<Rightarrow> bool hashtable \<Rightarrow> string option" where
  "resolveActiveParent entry statuses =
     (let primaryId = primaryParentId entry;
          secondaryId = secondaryParentId entry;
          primaryUp = parentUp statuses primaryId;
          secondaryUp = parentUp statuses secondaryId
      in if primaryUp then primaryId
         else if secondaryUp then secondaryId
         else primaryId)"

subsection \<open>One iteration of the main loop\<close>

text \<open>
  The body of the \<^verbatim>\<open># Process logic\<close> loop for one entry: state tracking, uptime string,
  failover, and the published record, built field by field as the script does.
\<close>

definition processEntry ::
  "int \<Rightarrow> bool hashtable \<Rightarrow> ('v, 'z) node_scheme \<Rightarrow> HostState hashtable
     \<Rightarrow> 'v resolved \<times> HostState hashtable" where
  "processEntry now statuses entry stateStore =
     (let isUp = Item statuses (node_id entry);
          (stateStore', st) = trackState stateStore (node_id entry) isUp now;
          durationSpan = now - ChangeTime st;
          uptimeString = Get_DurationString durationSpan;
          activeParent = resolveActiveParent entry statuses
      in (\<lparr> node_id = node_id entry,
             name = name entry,
             address = address entry,
             port = port entry,
             primaryParentId = primaryParentId entry,
             secondaryParentId = secondaryParentId entry,
             icon = icon entry,
             iconType = iconType entry,
             node_x = node_x entry,
             node_y = node_y entry,
             status = isUp,
             activeParentId = activeParent,
             uptime = uptimeString \<rparr>,
          stateStore'))"

fun processEntries ::
  "int \<Rightarrow> bool hashtable \<Rightarrow> ('v, 'z) node_scheme list \<Rightarrow> HostState hashtable
     \<Rightarrow> 'v resolved list \<times> HostState hashtable" where
  "processEntries now statuses [] stateStore = ([], stateStore)"
| "processEntries now statuses (entry # nodes) stateStore =
     (let (r, stateStore1) = processEntry now statuses entry stateStore;
          (rs, stateStore2) = processEntries now statuses nodes stateStore1
      in (r # rs, stateStore2))"

text \<open>
  Lines 108 to 183 for the normalised \<^verbatim>\<open>$nodes\<close>: the checks fill \<^verbatim>\<open>$statuses\<close> for every
  node, then the second loop runs with the time \<open>now\<close> read between the two.
\<close>

record 'v iteration =
  finalResults :: "'v resolved list"
  stateStore_after :: "HostState hashtable"
  io_log :: "io list"

definition tick ::
  "net \<Rightarrow> int \<Rightarrow> ('v, 'z) node_scheme list \<Rightarrow> HostState hashtable \<Rightarrow> 'v iteration" where
  "tick net now nodes stateStore =
     (let (statuses, log) = performChecks net nodes (Map.empty, []);
          (results, stateStore') = processEntries now statuses nodes stateStore
      in \<lparr> finalResults = results, stateStore_after = stateStore', io_log = log \<rparr>)"

text \<open>
  The \<^verbatim>\<open>while ($true)\<close> loop over a schedule of iterations, each with the network, the
  clock reading and the node list its configuration read gives; the state store is the
  only thing carried from one iteration to the next.
\<close>

fun ticks ::
  "(net \<times> int \<times> ('v, 'z) node_scheme list) list \<Rightarrow> HostState hashtable
     \<Rightarrow> 'v resolved list list" where
  "ticks [] stateStore = []"
| "ticks ((net, now, nodes) # rest) stateStore =
     (let it = tick net now nodes stateStore
      in finalResults it # ticks rest (stateStore_after it))"

section \<open>The renderer's uptime trackers (src/renderer/js/app.js)\<close>

text \<open>
  \<^verbatim>\<open>uptimeTrackers\<close> is a \<^verbatim>\<open>Map\<close> from node id to \<^verbatim>\<open>{status, since}\<close>; \<open>t\<close> is the
  reading of \<^verbatim>\<open>Date.now()\<close> taken when an entry is written.
\<close>

record tracker =
  tracker_status :: bool
  since :: int

definition updateTracker ::
  "(string \<rightharpoonup> tracker) \<Rightarrow> string \<Rightarrow> bool \<Rightarrow> int \<Rightarrow> (string \<rightharpoonup> tracker)" where
  "updateTracker uptimeTrackers i currentStatus t =
     (case uptimeTrackers i of
        None \<Rightarrow> uptimeTrackers(i \<mapsto> \<lparr> tracker_status = currentStatus, since = t \<rparr>)
      | Some tr \<Rightarrow>
          if tracker_status tr \<noteq> currentStatus
          then uptimeTrackers(i \<mapsto> tr \<lparr> tracker_status := currentStatus, since := t \<rparr>)
          else uptimeTrackers)"

text \<open>
  \<^verbatim>\<open>Date.now() - (uptimeTrackers.get(node.id)?.since || Date.now())\<close>, with \<open>t1\<close> and
  \<open>t2\<close> the two readings of the clock in evaluation order.
\<close>

definition elapsed :: "(string \<rightharpoonup> tracker) \<Rightarrow> string \<Rightarrow> int \<Rightarrow> int \<Rightarrow> int" where
  "elapsed uptimeTrackers i t1 t2 =
     t1 - (case uptimeTrackers i of
             None \<Rightarrow> t2
           | Some tr \<Rightarrow> if since tr \<noteq> 0 then since tr else t2)"

section \<open>The host-process scheduler (\<^verbatim>\<open>monitor:start\<close>, \<^verbatim>\<open>monitor:stop\<close>)\<close>

subsection \<open>One run of \<^verbatim>\<open>runMonitoring\<close>\<close>

text \<open>
  A node object as the scheduler receives it: the host's fields and whatever else the
  object carries. \<open>None\<close> is an absent property.
\<close>

record 'v monitored = "'v node" +
  status_field :: "bool option"
  responseTime :: "int option"
  activeParentId_field :: "string option"
  uptime_field :: "string option"

text \<open>
  The environment of one run: the network oracle, the readings of \<^verbatim>\<open>Date.now()\<close> when the
  probe of the node at a position starts and settles, the platform, and the rendering of
  the current time.
\<close>

record env =
  answer :: net
  started :: "nat \<Rightarrow> int"
  settled :: "nat \<Rightarrow> int"
  isWindows :: bool
  timeLabel :: string

text \<open>
  \<^verbatim>\<open>socket.connect(node.port, node.address)\<close> throws a \<^verbatim>\<open>RangeError\<close> at once, before any
  I/O, when the port is not in 0..65535. \<^verbatim>\<open>if (node.port)\<close> holds for a number other than
  zero, so the ports that make the callback throw are the negative ones and those above
  65535.
\<close>

definition bad_port :: "('v, 'z) node_scheme \<Rightarrow> bool" where
  "bad_port node = (case port node of None \<Rightarrow> False | Some p \<Rightarrow> p \<noteq> 0 \<and> (p < 0 \<or> 65535 < p))"

text \<open>
  The callback mapped over the nodes. Its promise is fulfilled with the node's record,
  or rejected (\<open>None\<close>) when \<^verbatim>\<open>socket.connect\<close> throws. The address goes into the call as
  it is, set or not.
\<close>

definition probeNode ::
  "env \<Rightarrow> io list \<Rightarrow> nat \<Rightarrow> ('v, 'z) monitored_scheme
     \<Rightarrow> ('v, 'z) monitored_scheme option \<times> io list" where
  "probeNode e log i node =
     (let start = started e i in
      if bad_port node then (None, log)
      else
        let call = (case port node of
                      Some p \<Rightarrow>
                        if p \<noteq> 0 then TcpConnect (address node) p 1000
                        else Ping (address node) (if isWindows e then 500 else 1000)
                    | None \<Rightarrow> Ping (address node) (if isWindows e then 500 else 1000));
            online = answer e log call
        in (Some (node \<lparr> status_field := Some online,
                          responseTime := Some (settled e i - start) \<rparr>),
            log @ [call]))"

text \<open>
  \<^verbatim>\<open>nodes.map\<close> runs every callback up to its first \<^verbatim>\<open>await\<close>, so the calls of all nodes
  with a good port are issued, whether or not another callback has thrown.
\<close>

fun probeAll ::
  "env \<Rightarrow> io list \<Rightarrow> nat \<Rightarrow> ('v, 'z) monitored_scheme list
     \<Rightarrow> ('v, 'z) monitored_scheme option list \<times> io list" where
  "probeAll e log i [] = ([], log)"
| "probeAll e log i (node # nodes) =
     (let (r, log1) = probeNode e log i node;
          (rs, log2) = probeAll e log1 (Suc i) nodes
      in (r # rs, log2))"

text \<open>
  The \<^verbatim>\<open>nodes\<close> property of a configuration object: a false value (absent, \<^verbatim>\<open>null\<close>, ...),
  a true value that is no array (it has no \<^verbatim>\<open>map\<close>), or an array of node objects.
\<close>

datatype 'n nodes_value = Missing | NotArray | NodeArray "'n list"

record 'n config =
  cfg_nodes :: "'n nodes_value"
  interval :: "int option"

record 'n snapshot =
  nodes :: "'n list"
  updated :: string

text \<open>
  A run returns without sending, or throws (its promise is rejected: the node list has no
  \<^verbatim>\<open>map\<close>, or \<^verbatim>\<open>Promise.all\<close> is rejected because a callback has thrown), or sends the
  snapshot of all results once every probe has settled.
\<close>

datatype 'n outcome = Returned | Threw | Published "'n snapshot"

definition runMonitoring ::
  "env \<Rightarrow> ('v, 'z) monitored_scheme config option
     \<Rightarrow> ('v, 'z) monitored_scheme outcome \<times> io list" where
  "runMonitoring e monitoringConfig =
     (case monitoringConfig of
        None \<Rightarrow> (Returned, [])
      | Some c \<Rightarrow>
          (case cfg_nodes c of
             Missing \<Rightarrow> (Returned, [])
           | NotArray \<Rightarrow> (Threw, [])
           | NodeArray ns \<Rightarrow>
               (let (promises, log) = probeAll e [] 0 ns
                in case those promises of
                     None \<Rightarrow> (Threw, log)
                   | Some statusResults \<Rightarrow>
                       (Published \<lparr> nodes = statusResults, updated = timeLabel e \<rparr>, log))))"

subsection \<open>Timers and the two handlers\<close>

text \<open>
  The module's state: the two variables \<^verbatim>\<open>monitoringInterval\<close> (\<^verbatim>\<open>null\<close> or a timer
  handle) and \<^verbatim>\<open>monitoringConfig\<close>, and the part of the event loop the handlers act on:
  the interval timers that are armed (handle and period), the next fresh handle, and the
  \<^verbatim>\<open>monitor:start\<close> calls suspended at \<^verbatim>\<open>await runMonitoring()\<close>, each with its own
  \<^verbatim>\<open>config\<close> argument.
\<close>

record 'n sched =
  monitoringInterval :: "nat option"
  monitoringConfig :: "'n config option"
  armed :: "(nat \<times> int) list"
  next_handle :: nat
  awaiting :: "'n config option list"

definition idle :: "'n sched" where
  "idle = \<lparr> monitoringInterval = None, monitoringConfig = None, armed = [],
            next_handle = 0, awaiting = [] \<rparr>"

definition clearInterval :: "nat \<Rightarrow> (nat \<times> int) list \<Rightarrow> (nat \<times> int) list" where
  "clearInterval h timers = filter (\<lambda>t. fst t \<noteq> h) timers"

datatype reply = Success | Rejected

text \<open>
  Lines 512 to 516: the configuration is stored, then the timer the variable holds is
  cleared. The variable keeps the cleared handle.
\<close>

definition start_enter :: "'n config option \<Rightarrow> 'n sched \<Rightarrow> 'n sched" where
  "start_enter cfg s =
     (let s1 = s \<lparr> monitoringConfig := cfg \<rparr>
      in case monitoringInterval s1 of
           None \<Rightarrow> s1
         | Some h \<Rightarrow> s1 \<lparr> armed := clearInterval h (armed s1) \<rparr>)"

text \<open>
  What the first \<^verbatim>\<open>runMonitoring()\<close> of a start call does with the configuration just
  stored: it throws before the event loop takes another message (the node list is no
  array, or a node has a bad port, which rejects \<^verbatim>\<open>Promise.all\<close> at once), it completes
  without waiting for any I/O (no node list, or an empty one), or it suspends the handler
  until the probes have settled.
\<close>

datatype first_run = Throws | Completes | Suspends

definition first_run :: "('v, 'z) monitored_scheme config option \<Rightarrow> first_run" where
  "first_run cfg =
     (case cfg of
        None \<Rightarrow> Completes
      | Some c \<Rightarrow>
          (case cfg_nodes c of
             Missing \<Rightarrow> Completes
           | NotArray \<Rightarrow> Throws
           | NodeArray ns \<Rightarrow>
               if list_ex bad_port ns then Throws
               else if ns = [] then Completes
               else Suspends))"

text \<open>
  Lines 573 to 575, after the first run: \<^verbatim>\<open>config.interval\<close> throws when \<^verbatim>\<open>config\<close> is
  \<^verbatim>\<open>null\<close>; otherwise a timer is armed with period \<^verbatim>\<open>config.interval || 2000\<close> and its
  handle stored.
\<close>

definition start_exit :: "'n config option \<Rightarrow> 'n sched \<Rightarrow> 'n sched \<times> reply" where
  "start_exit cfg s =
     (case cfg of
        None \<Rightarrow> (s, Rejected)
      | Some c \<Rightarrow>
          (let period = (case interval c of
                           None \<Rightarrow> 2000
                         | Some i \<Rightarrow> if i \<noteq> 0 then i else 2000);
               h = next_handle s
           in (s \<lparr> monitoringInterval := Some h,
                    armed := armed s @ [(h, period)],
                    next_handle := Suc h \<rparr>,
               Success)))"

definition stop :: "'n sched \<Rightarrow> 'n sched \<times> reply" where
  "stop s =
     (case monitoringInterval s of
        None \<Rightarrow> (s, Success)
      | Some h \<Rightarrow> (s \<lparr> armed := clearInterval h (armed s), monitoringInterval := None \<rparr>, Success))"

text \<open>
  A start call that nothing interrupts: the handler runs from its first line to its
  return before any other message is handled.
\<close>

definition start ::
  "('v, 'z) monitored_scheme config option \<Rightarrow> ('v, 'z) monitored_scheme sched
     \<Rightarrow> ('v, 'z) monitored_scheme sched \<times> reply" where
  "start cfg s =
     (let s1 = start_enter cfg s
      in if first_run cfg = Throws then (s1, Rejected) else start_exit cfg s1)"

text \<open>
  The handlers as the event loop runs them. A start call whose first run waits for probes
  is suspended, and other calls are handled before it resumes.
\<close>

datatype 'n request = StartCall "'n config option" | StopCall | FirstRunSettles nat

definition step ::
  "('v, 'z) monitored_scheme sched \<Rightarrow> ('v, 'z) monitored_scheme request
     \<Rightarrow> ('v, 'z) monitored_scheme sched \<times> reply option" where
  "step s r =
     (case r of
        StartCall cfg \<Rightarrow>
          (let s1 = start_enter cfg s
           in case first_run cfg of
                Throws \<Rightarrow> (s1, Some Rejected)
              | Completes \<Rightarrow> (let (s2, a) = start_exit cfg s1 in (s2, Some a))
              | Suspends \<Rightarrow> (s1 \<lparr> awaiting := awaiting s1 @ [cfg] \<rparr>, None))
      | StopCall \<Rightarrow> (let (s1, a) = stop s in (s1, Some a))
      | FirstRunSettles k \<Rightarrow>
          (if k < length (awaiting s)
           then (let cfg = awaiting s ! k;
                     s1 = s \<lparr> awaiting := take k (awaiting s) @ drop (Suc k) (awaiting s) \<rparr>;
                     (s2, a) = start_exit cfg s1
                 in (s2, Some a))
           else (s, None)))"

fun run ::
  "('v, 'z) monitored_scheme sched \<Rightarrow> ('v, 'z) monitored_scheme request list
     \<Rightarrow> ('v, 'z) monitored_scheme sched" where
  "run s [] = s"
| "run s (r # rs) = run (fst (step s r)) rs"

text \<open>The loop is Running while a timer is armed, Idle otherwise.\<close>

definition Running :: "'n sched \<Rightarrow> bool" where
  "Running s = (armed s \<noteq> [])"

section \<open>Sequences of observations of one host\<close>

text \<open>
  The entries the state tracker holds for one id after each of a sequence of
  observations (status and time), in the scripted monitor and in the renderer.
\<close>

fun states ::
  "HostState hashtable \<Rightarrow> string \<Rightarrow> (bool option \<times> int) list \<Rightarrow> HostState list" where
  "states stateStore i [] = []"
| "states stateStore i (ob # obs) =
     (let (stateStore', st) = trackState stateStore i (fst ob) (snd ob)
      in st # states stateStore' i obs)"

fun tracker_states ::
  "(string \<rightharpoonup> tracker) \<Rightarrow> string \<Rightarrow> (bool \<times> int) list \<Rightarrow> tracker option list" where
  "tracker_states uptimeTrackers i [] = []"
| "tracker_states uptimeTrackers i (ob # obs) =
     (let uptimeTrackers' = updateTracker uptimeTrackers i (fst ob) (snd ob)
      in uptimeTrackers' i # tracker_states uptimeTrackers' i obs)"

text \<open>
  A timer that fires calls \<^verbatim>\<open>runMonitoring\<close>, which reads the module's
  \<^verbatim>\<open>monitoringConfig\<close> at that moment. \<open>timerFires\<close> is the outcome of the run that begins
  then; when the run has probes to wait for, its snapshot is sent later, after whatever
  the event loop handles in between (see \<open>pstep\<close> below).
\<close>

definition timerFires ::
  "env \<Rightarrow> ('v, 'z) monitored_scheme sched \<Rightarrow> ('v, 'z) monitored_scheme outcome \<times> io list" where
  "timerFires e s = runMonitoring e (monitoringConfig s)"

subsection \<open>Runs in flight and the snapshots sent\<close>

text \<open>
  The scheduler with its runs: the handlers' state, the outcome that the first run of each
  suspended start call will deliver (in the order of \<open>awaiting\<close>), the snapshots of the
  timer runs whose probes have not settled yet, and the snapshots sent so far, oldest
  first. A run reads the node list when it begins and sends, without reading it again,
  when its probes have settled.
\<close>

record 'n monitor =
  handlers :: "'n sched"
  first_runs :: "'n outcome list"
  timer_runs :: "'n snapshot list"
  sent :: "'n snapshot list"

definition quiet :: "'n monitor" where
  "quiet = \<lparr> handlers = idle, first_runs = [], timer_runs = [], sent = [] \<rparr>"

text \<open>
  Line 565: the results are sent with the rendering of the time at that moment. A run
  that has returned or thrown sends nothing.
\<close>

definition send :: "env \<Rightarrow> 'n outcome \<Rightarrow> 'n snapshot list \<Rightarrow> 'n snapshot list" where
  "send e out msgs =
     (case out of
        Published snap \<Rightarrow> msgs @ [snap \<lparr> updated := timeLabel e \<rparr>]
      | Returned \<Rightarrow> msgs
      | Threw \<Rightarrow> msgs)"

text \<open>
  What the event loop handles: a call of one of the two handlers or the resumption of a
  suspended start call (the probes of its first run have settled), a timer that fires,
  and the settling of the probes of a timer run. The environment is the one at that
  moment: the one in which a run begins gives the answers and the clock readings of its
  probes, the one in which it sends gives the time on the snapshot. A timer run is sorted
  as the first run of a start call is: it throws, it sends in the turn in which it began,
  or it waits for its probes.
\<close>

datatype 'n event = Handle "'n request" | Fire nat | Settle nat

definition run_begins ::
  "env \<Rightarrow> ('v, 'z) monitored_scheme monitor \<Rightarrow> ('v, 'z) monitored_scheme monitor" where
  "run_begins e m =
     (let out = fst (timerFires e (handlers m))
      in case first_run (monitoringConfig (handlers m)) of
           Throws \<Rightarrow> m
         | Completes \<Rightarrow> m \<lparr> sent := send e out (sent m) \<rparr>
         | Suspends \<Rightarrow>
             (case out of
                Published snap \<Rightarrow> m \<lparr> timer_runs := timer_runs m @ [snap] \<rparr>
              | Returned \<Rightarrow> m
              | Threw \<Rightarrow> m))"

definition pstep ::
  "env \<Rightarrow> ('v, 'z) monitored_scheme monitor \<Rightarrow> ('v, 'z) monitored_scheme event
     \<Rightarrow> ('v, 'z) monitored_scheme monitor" where
  "pstep e m ev =
     (case ev of
        Handle r \<Rightarrow>
          (let h = fst (step (handlers m) r) in
           case r of
             StartCall cfg \<Rightarrow>
               (let out = fst (runMonitoring e cfg) in
                case first_run cfg of
                  Throws \<Rightarrow> m \<lparr> handlers := h \<rparr>
                | Completes \<Rightarrow> m \<lparr> handlers := h, sent := send e out (sent m) \<rparr>
                | Suspends \<Rightarrow> m \<lparr> handlers := h, first_runs := first_runs m @ [out] \<rparr>)
           | StopCall \<Rightarrow> m \<lparr> handlers := h \<rparr>
           | FirstRunSettles k \<Rightarrow>
               if k < length (awaiting (handlers m)) \<and> k < length (first_runs m)
               then m \<lparr> handlers := h,
                        first_runs := take k (first_runs m) @ drop (Suc k) (first_runs m),
                        sent := send e (first_runs m ! k) (sent m) \<rparr>
               else m)
      | Fire t \<Rightarrow> if list_ex (\<lambda>a. fst a = t) (armed (handlers m)) then run_begins e m else m
      | Settle k \<Rightarrow>
          if k < length (timer_runs m)
          then m \<lparr> timer_runs := take k (timer_runs m) @ drop (Suc k) (timer_runs m),
                   sent := send e (Published (timer_runs m ! k)) (sent m) \<rparr>
          else m)"

fun psteps ::
  "('v, 'z) monitored_scheme monitor \<Rightarrow> (env \<times> ('v, 'z) monitored_scheme event) list
     \<Rightarrow> ('v, 'z) monitored_scheme monitor" where
  "psteps m [] = m"
| "psteps m ((e, ev) # rest) = psteps (pstep e m ev) rest"

text \<open>
  The state the handlers keep when no call overlaps another: at most one timer is armed,
  and it is the one whose handle \<^verbatim>\<open>monitoringInterval\<close> holds.
\<close>

definition single_timer :: "'n sched \<Rightarrow> bool" where
  "single_timer s =
     (case armed s of
        [] \<Rightarrow> True
      | [t] \<Rightarrow> monitoringInterval s = Some (fst t)
      | _ \<Rightarrow> False)"

text \<open>Calls handled in turn, each returning before the next is made.\<close>

datatype 'n call = DoStart "'n config option" | DoStop

fun calls_in_turn ::
  "('v, 'z) monitored_scheme sched \<Rightarrow> ('v, 'z) monitored_scheme call list
     \<Rightarrow> ('v, 'z) monitored_scheme sched" where
  "calls_in_turn s [] = s"
| "calls_in_turn s (DoStart cfg # cs) = calls_in_turn (fst (start cfg s)) cs"
| "calls_in_turn s (DoStop # cs) = calls_in_turn (fst (stop s)) cs"

section \<open>The resolver policy as the specification words it\<close>

text \<open>
  A parent id is set when it is neither \<^verbatim>\<open>null\<close> nor the empty string, and
  \<^verbatim>\<open>statusesById[p] == true\<close> reads the map at the parent's key.
\<close>

definition parent_set :: "string option \<Rightarrow> bool" where
  "parent_set p = (case p of None \<Rightarrow> False | Some s \<Rightarrow> s \<noteq> [])"

definition statusOf :: "bool hashtable \<Rightarrow> string option \<Rightarrow> bool" where
  "statusOf statusesById p =
     (case p of None \<Rightarrow> False | Some k \<Rightarrow> Item statusesById k = Some True)"

definition resolver_policy :: "('v, 'z) node_scheme \<Rightarrow> bool hashtable \<Rightarrow> string option" where
  "resolver_policy host statusesById =
     (if parent_set (primaryParentId host) \<and> statusOf statusesById (primaryParentId host)
      then primaryParentId host
      else if parent_set (secondaryParentId host) \<and>
              statusOf statusesById (secondaryParentId host)
      then secondaryParentId host
      else primaryParentId host)"

section \<open>Example configurations\<close>

text \<open>A host with primary parent A and secondary parent B, and a host without parents.\<close>

definition hostAB :: "unit node" where
  "hostAB = \<lparr> node_id = ''C'', name = (), address = Some ''10.0.0.3'', port = None,
     primaryParentId = Some ''A'', secondaryParentId = Some ''B'', icon = (), iconType = (),
     node_x = (), node_y = () \<rparr>"

definition orphan :: "unit node" where
  "orphan = hostAB \<lparr> node_id := ''L'', primaryParentId := None, secondaryParentId := None \<rparr>"

definition rawLeaf :: "unit raw_node" where
  "rawLeaf = \<lparr> raw_id = ''L'', raw_name = (), raw_address = Some ''10.0.0.3'',
     raw_port = PortNull, raw_primaryParentId = Some [], raw_secondaryParentId = None,
     raw_icon = (), raw_iconType = (), raw_x = (), raw_y = () \<rparr>"

definition statuses_A_down_B_up :: "bool hashtable" where
  "statuses_A_down_B_up = set_Item (set_Item Map.empty ''A'' False) ''B'' True"

text \<open>
  The observations of the specification's state tracker test: up, up, down, down, up at
  times 0, 10, 20, 30, 40.
\<close>

definition flips :: "(bool \<times> int) list" where
  "flips = [(True, 0), (True, 10), (False, 20), (False, 30), (True, 40)]"

definition flips_ps :: "(bool option \<times> int) list" where
  "flips_ps = map (\<lambda>ob. (Some (fst ob), snd ob)) flips"

text \<open>
  The end-to-end configuration of the specification: A without parent, B with primary A,
  and C (\<open>hostAB\<close>) with primary A and secondary B; a network on which only A's address
  does not answer.
\<close>

definition hostA :: "unit node" where
  "hostA = \<lparr> node_id = ''A'', name = (), address = Some ''10.0.0.1'', port = None,
     primaryParentId = None, secondaryParentId = None, icon = (), iconType = (),
     node_x = (), node_y = () \<rparr>"

definition hostB :: "unit node" where
  "hostB = \<lparr> node_id = ''B'', name = (), address = Some ''10.0.0.2'', port = None,
     primaryParentId = Some ''A'', secondaryParentId = None, icon = (), iconType = (),
     node_x = (), node_y = () \<rparr>"

definition three_hosts :: "unit node list" where
  "three_hosts = [hostA, hostB, hostAB]"

definition net_A_down :: net where
  "net_A_down log call =
     (case call of
        Ping a _ \<Rightarrow> a \<noteq> Some ''10.0.0.1''
      | TcpConnect a _ _ \<Rightarrow> a \<noteq> Some ''10.0.0.1'')"

text \<open>The same hosts as node objects that carry no status, uptime or active parent.\<close>

definition as_monitored :: "'v node \<Rightarrow> 'v monitored" where
  "as_monitored n =
     \<lparr> node_id = node_id n, name = name n, address = address n, port = port n,
       primaryParentId = primaryParentId n, secondaryParentId = secondaryParentId n,
       icon = icon n, iconType = iconType n, node_x = node_x n, node_y = node_y n,
       status_field = None, responseTime = None, activeParentId_field = None,
       uptime_field = None \<rparr>"

definition three_nodes :: "unit monitored config" where
  "three_nodes = \<lparr> cfg_nodes = NodeArray (map as_monitored three_hosts), interval = Some 2000 \<rparr>"

definition env_A_down :: env where
  "env_A_down = \<lparr> answer = net_A_down, started = (\<lambda>i. 1000), settled = (\<lambda>i. 1007),
     isWindows = False, timeLabel = ''12:00:00'' \<rparr>"

text \<open>
  Raw nodes with an empty and with a numeric port string, and a cast that reads the one
  string it is given.
\<close>

definition rawEmptyPort :: "unit raw_node" where
  "rawEmptyPort = rawLeaf \<lparr> raw_id := ''E'', raw_port := PortString [] \<rparr>"

definition rawPort80 :: "unit raw_node" where
  "rawPort80 = rawLeaf \<lparr> raw_id := ''W'', raw_port := PortString ''80'' \<rparr>"

definition toInt80 :: "string \<Rightarrow> int option" where
  "toInt80 s = (if s = ''80'' then Some 80 else None)"

text \<open>
  Node objects without an address: the empty string with port 80, and \<^verbatim>\<open>null\<close> without a
  port. In the environment \<open>env_listener\<close> every TCP connect succeeds, as on a machine
  with a local listener, and every ping fails.
\<close>

definition empty_address_node :: "unit monitored" where
  "empty_address_node =
     as_monitored (hostA \<lparr> node_id := ''N1'', address := Some [], port := Some 80 \<rparr>)"

definition null_address_node :: "unit monitored" where
  "null_address_node = as_monitored (hostA \<lparr> node_id := ''N2'', address := None \<rparr>)"

definition env_listener :: env where
  "env_listener =
     env_A_down \<lparr> answer := (\<lambda>log call. case call of Ping _ _ \<Rightarrow> False
                                           | TcpConnect _ _ _ \<Rightarrow> True) \<rparr>"

text \<open>The host list after B has been removed, as nodes of either monitor.\<close>

definition two_hosts :: "unit node list" where
  "two_hosts = [hostA, hostAB]"

definition two_nodes :: "unit monitored config" where
  "two_nodes = \<lparr> cfg_nodes = NodeArray (map as_monitored two_hosts), interval = Some 2000 \<rparr>"


text \<open>Configurations without a node list, and with a node list that is no array.\<close>

definition no_nodes_config :: "unit monitored config" where
  "no_nodes_config = \<lparr> cfg_nodes = Missing, interval = None \<rparr>"

definition bad_nodes_config :: "unit monitored config" where
  "bad_nodes_config = \<lparr> cfg_nodes = NotArray, interval = Some 2000 \<rparr>"

text \<open>A network on which every call is answered.\<close>

definition net_all_up :: net where
  "net_all_up log call = True"

text \<open>A state store that holds A as up since time 0.\<close>

definition store_A_up :: "HostState hashtable" where
  "store_A_up = set_Item Map.empty ''A'' \<lparr> Status = Some True, ChangeTime = 0 \<rparr>"

definition trackers_A_up :: "string \<rightharpoonup> tracker" where
  "trackers_A_up = Map.empty(''A'' \<mapsto> \<lparr> tracker_status = True, since = 1000 \<rparr>)"



text \<open>
  Monitoring is started on the three hosts and its first run sends; the timer fires and
  a run begins; before its probes settle, monitoring is stopped and started again
  without B, and the first run of the new call sends; then the probes of the timer run
  settle.
\<close>

definition restart_in_flight :: "(env \<times> unit monitored event) list" where
  "restart_in_flight =
     [(env_A_down, Handle (StartCall (Some three_nodes))),
      (env_A_down, Handle (FirstRunSettles 0)),
      (env_A_down, Fire 0),
      (env_A_down, Handle StopCall),
      (env_A_down, Handle (StartCall (Some two_nodes))),
      (env_A_down, Handle (FirstRunSettles 0)),
      (env_A_down, Settle 0)]"

section \<open>Properties of the topology resolver\<close>

lemma hkey_examples: "hkey ''A'' = ''a''" "hkey ''B'' = ''b''" "hkey ''C'' = ''c''"
  by code_simp+

lemma parentUp_iff: "parentUp st p = (parent_set p \<and> statusOf st p)"
  by (auto simp: parentUp_def parent_set_def statusOf_def ContainsKey_def Item_def
      split: option.splits)

lemma parentUp_absent:
  "\<not> ContainsKey st k \<Longrightarrow> parentUp (set_Item st k False) p = parentUp st p"
  by (auto simp: parentUp_def ContainsKey_def Item_def set_Item_def split: option.splits)

lemma normalizeNode_parents:
  "normalizeNode toInt r = Inr h \<Longrightarrow>
     primaryParentId h = normalizeParent (raw_primaryParentId r) \<and>
     secondaryParentId h = normalizeParent (raw_secondaryParentId r)"
  by (auto simp: normalizeNode_def split: sum.splits)

lemma normalizeParent_unset: "\<not> parent_set p \<Longrightarrow> normalizeParent p = None"
  by (auto simp: normalizeParent_def parent_set_def split: option.splits)

text \<open>
  C1: for every host and every statuses map the failover logic returns the primary parent
  when it is set and up in the map, otherwise the secondary parent when it is set and up,
  otherwise the primary parent whatever its status. A host without parents resolves to
  \<^verbatim>\<open>null\<close>, also when its raw parents are empty strings, and a parent id missing from the
  map counts exactly as one mapped to false: adding the missing key with value false
  changes no result.
\<close>

theorem resolveActiveParent_policy:
  "resolveActiveParent host statuses = resolver_policy host statuses \<and>
   (primaryParentId host = None \<and> secondaryParentId host = None \<longrightarrow>
      resolveActiveParent host statuses = None) \<and>
   (\<not> parent_set (raw_primaryParentId r) \<and> \<not> parent_set (raw_secondaryParentId r) \<and>
      normalizeNode toInt r = Inr n \<longrightarrow> resolveActiveParent n statuses = None) \<and>
   (\<not> ContainsKey statuses k \<longrightarrow>
      resolveActiveParent host (set_Item statuses k False) = resolveActiveParent host statuses)"
proof (intro conjI impI)
  show "resolveActiveParent host statuses = resolver_policy host statuses"
    by (simp add: resolveActiveParent_def resolver_policy_def Let_def parentUp_iff)
next
  assume "primaryParentId host = None \<and> secondaryParentId host = None"
  then show "resolveActiveParent host statuses = None"
    by (simp add: resolveActiveParent_def Let_def parentUp_def)
next
  assume a: "\<not> parent_set (raw_primaryParentId r) \<and> \<not> parent_set (raw_secondaryParentId r) \<and>
      normalizeNode toInt r = Inr n"
  then have "primaryParentId n = None" "secondaryParentId n = None"
    using normalizeNode_parents[of toInt r n] by (simp_all add: normalizeParent_unset)
  then show "resolveActiveParent n statuses = None"
    by (simp add: resolveActiveParent_def Let_def parentUp_def)
next
  assume "\<not> ContainsKey statuses k"
  then show "resolveActiveParent host (set_Item statuses k False) =
             resolveActiveParent host statuses"
    by (simp add: resolveActiveParent_def Let_def parentUp_absent)
qed

text \<open>
  The four cases of the specification's test list on the host with primary A and
  secondary B, the host without parents, and a map that lacks A.
\<close>

theorem resolveActiveParent_policy_witness:
  "resolveActiveParent hostAB (set_Item (set_Item Map.empty ''A'' True) ''B'' False) = Some ''A'' \<and>
   resolveActiveParent hostAB statuses_A_down_B_up = Some ''B'' \<and>
   resolveActiveParent hostAB (set_Item (set_Item Map.empty ''A'' False) ''B'' False) = Some ''A'' \<and>
   resolveActiveParent hostAB Map.empty = Some ''A'' \<and>
   resolveActiveParent orphan statuses_A_down_B_up = None \<and>
   resolveActiveParent orphan Map.empty = None \<and>
   normalizeNode (\<lambda>s. None) rawLeaf = Inr orphan \<and>
   \<not> ContainsKey (set_Item Map.empty ''B'' True) ''A'' \<and>
   resolveActiveParent hostAB (set_Item (set_Item Map.empty ''B'' True) ''A'' False) = Some ''B''"
proof -
  note pol = resolveActiveParent_policy
  have ev: "\<And>st. resolveActiveParent hostAB st = resolver_policy hostAB st"
    using pol by blast
  have n: "normalizeNode (\<lambda>s. None) rawLeaf = Inr orphan"
    by (simp add: normalizeNode_def normalizePort_def rawLeaf_def orphan_def hostAB_def
        normalizeParent_def)
  have u: "\<not> parent_set (raw_primaryParentId rawLeaf) \<and>
           \<not> parent_set (raw_secondaryParentId rawLeaf)"
    by (simp add: rawLeaf_def parent_set_def)
  have o: "resolveActiveParent orphan statuses_A_down_B_up = None"
    using pol[of hostAB statuses_A_down_B_up rawLeaf "\<lambda>s. None" orphan "''A''"] n u by blast
  have p: "primaryParentId orphan = None \<and> secondaryParentId orphan = None"
    by (simp add: orphan_def)
  have o': "resolveActiveParent orphan Map.empty = None"
    using pol[of orphan Map.empty, THEN conjunct2, THEN conjunct1] p by blast
  have c: "\<not> ContainsKey (set_Item Map.empty ''B'' True) ''A''"
    by (simp add: ContainsKey_def set_Item_def hkey_examples)
  have a: "resolveActiveParent hostAB (set_Item (set_Item Map.empty ''B'' True) ''A'' False) =
           resolveActiveParent hostAB (set_Item Map.empty ''B'' True)"
    using pol[of hostAB "set_Item Map.empty ''B'' True" rawLeaf "\<lambda>s. None" orphan "''A''"] c
    by blast
  show ?thesis
    using n o o' c a unfolding ev
    by (simp add: resolver_policy_def hostAB_def statuses_A_down_B_up_def set_Item_def
        Item_def parent_set_def statusOf_def hkey_examples)
qed

section \<open>Properties of the duration formatting\<close>

lemma smod_nonneg: "0 \<le> (a::int) \<Longrightarrow> 0 < b \<Longrightarrow> a smod b = a mod b"
  by (simp add: smod_int_alt_def sgn_if)

lemma sdiv_nonneg: "0 \<le> (a::int) \<Longrightarrow> 0 < b \<Longrightarrow> a sdiv b = a div b"
  by (simp add: signed_divide_int_def sgn_if)

lemma div_div_int: "0 \<le> c \<Longrightarrow> (a::int) div b div c = a div (b * c)"
  by (simp add: zdiv_zmult2_eq)

lemma div_mod_int: "0 < b \<Longrightarrow> 0 \<le> c \<Longrightarrow> (a::int) div b mod c = a mod (b * c) div b"
  by (simp add: zmod_zmult2_eq)

lemma div_less_iff_int:
  fixes a b c :: int
  assumes "0 < b"
  shows "(a div b < c) = (a < c * b)"
proof
  have e: "a = b * (a div b) + a mod b" by simp
  have r: "0 \<le> a mod b" "a mod b < b" using assms by simp_all
  {
    assume "a div b < c"
    then have "a div b \<le> c - 1" by simp
    then have "b * (a div b) \<le> b * (c - 1)" using assms by (simp add: mult_left_mono)
    then have "b * (a div b) + a mod b < b * (c - 1) + b" using r by linarith
    then show "a < c * b" using e by (simp add: algebra_simps)
  }
  {
    assume lt: "a < c * b"
    show "a div b < c"
    proof (rule ccontr)
      assume "\<not> a div b < c"
      then have "c \<le> a div b" by simp
      then have "b * c \<le> b * (a div b)" using assms by (simp add: mult_left_mono)
      then have "b * c \<le> b * (a div b) + a mod b" using r by linarith
      then show False using lt e by (simp add: algebra_simps)
    qed
  }
qed

lemma formatDuration_bucket:
  assumes nn: "0 \<le> ms"
  shows "formatDuration ms = bucket_policy ms"
proof -
  have s: "ms div 1000 div 60 = ms div 60000" using div_div_int[of 60 ms 1000] by simp
  have m: "ms div 60000 div 60 = ms div 3600000" using div_div_int[of 60 ms 60000] by simp
  have h: "ms div 3600000 div 24 = ms div 86400000" using div_div_int[of 24 ms 3600000] by simp
  have l1: "(ms div 1000 < 60) = (ms < 60000)" using div_less_iff_int[of 1000 ms 60] by simp
  have l2: "(ms div 60000 < 60) = (ms < 3600000)" using div_less_iff_int[of 60000 ms 60] by simp
  have l3: "(ms div 3600000 < 24) = (ms < 86400000)"
    using div_less_iff_int[of 3600000 ms 24] by simp
  have r1: "ms div 1000 mod 60 = ms mod 60000 div 1000" using div_mod_int[of 1000 60 ms] by simp
  have r2: "ms div 60000 mod 60 = ms mod 3600000 div 60000"
    using div_mod_int[of 60000 60 ms] by simp
  have r3: "ms div 3600000 mod 24 = ms mod 86400000 div 3600000"
    using div_mod_int[of 3600000 24 ms] by simp
  have p: "0 \<le> ms div 1000" "0 \<le> ms div 60000" "0 \<le> ms div 3600000"
    using nn by (simp_all add: pos_imp_zdiv_nonneg_iff)
  show ?thesis
    by (simp add: formatDuration_def bucket_policy_def Let_def s m h l1 l2 l3 smod_nonneg p r1 r2 r3)
qed

lemma span_components:
  assumes nn: "0 \<le> t"
  shows "Days t = t div TicksPerDay"
    and "Hours t = t mod TicksPerDay div TicksPerHour"
    and "Minutes t = t mod TicksPerHour div TicksPerMinute"
    and "Seconds t = t mod TicksPerMinute div TicksPerSecond"
proof -
  have p: "0 \<le> t div 36000000000" "0 \<le> t div 600000000" "0 \<le> t div 10000000"
    using nn by (simp_all add: pos_imp_zdiv_nonneg_iff)
  show "Days t = t div TicksPerDay"
    using nn by (simp add: Days_def TicksPerDay_def sdiv_nonneg)
  have "t div 36000000000 mod 24 = t mod 864000000000 div 36000000000"
    using div_mod_int[of 36000000000 24 t] by simp
  then show "Hours t = t mod TicksPerDay div TicksPerHour"
    using nn p by (simp add: Hours_def TicksPerDay_def TicksPerHour_def sdiv_nonneg smod_nonneg)
  have "t div 600000000 mod 60 = t mod 36000000000 div 600000000"
    using div_mod_int[of 600000000 60 t] by simp
  then show "Minutes t = t mod TicksPerHour div TicksPerMinute"
    using nn p
    by (simp add: Minutes_def TicksPerMinute_def TicksPerHour_def sdiv_nonneg smod_nonneg)
  have "t div 10000000 mod 60 = t mod 600000000 div 10000000"
    using div_mod_int[of 10000000 60 t] by simp
  then show "Seconds t = t mod TicksPerMinute div TicksPerSecond"
    using nn p
    by (simp add: Seconds_def TicksPerMinute_def TicksPerSecond_def sdiv_nonneg smod_nonneg)
qed

lemma Get_DurationString_below_day:
  assumes nn: "0 \<le> t" and lt: "t < TicksPerDay"
  shows "Get_DurationString t = bucket_policy (t div TicksPerMillisecond)"
proof -
  let ?d = "t div 10000"
  have s: "?d div 1000 = t div 10000000" using div_div_int[of 1000 t 10000] by simp
  have m: "?d div 60000 = t div 600000000" using div_div_int[of 60000 t 10000] by simp
  have h: "?d div 3600000 = t div 36000000000" using div_div_int[of 3600000 t 10000] by simp
  have ms: "?d mod 60000 div 1000 = t mod 600000000 div 10000000"
  proof -
    have "?d mod 60000 = t mod 600000000 div 10000" using div_mod_int[of 10000 60000 t] by simp
    then show ?thesis using div_div_int[of 1000 "t mod 600000000" 10000] by simp
  qed
  have hm: "?d mod 3600000 div 60000 = t mod 36000000000 div 600000000"
  proof -
    have "?d mod 3600000 = t mod 36000000000 div 10000"
      using div_mod_int[of 10000 3600000 t] by simp
    then show ?thesis using div_div_int[of 60000 "t mod 36000000000" 10000] by simp
  qed
  have l1: "(?d < 60000) = (t < 600000000)" using div_less_iff_int[of 10000 t 60000] by simp
  have l2: "(?d < 3600000) = (t < 36000000000)"
    using div_less_iff_int[of 10000 t 3600000] by simp
  have l3: "?d < 86400000"
    using div_less_iff_int[of 10000 t 86400000] lt by (simp add: TicksPerDay_def)
  have small: "t < 600000000 \<Longrightarrow> t mod 600000000 = t" using nn by simp
  have c: "Get_DurationString t =
     (if t < 600000000 then string_of_int (t div 10000000) @ ''s''
      else if t < 36000000000 then
        string_of_int (t div 600000000) @ ''m '' @
        string_of_int (t mod 600000000 div 10000000) @ ''s''
      else string_of_int (t div 36000000000) @ ''h '' @
        string_of_int (t mod 36000000000 div 600000000) @ ''m'')"
    using nn lt
    by (simp add: Get_DurationString_def span_components small
        TicksPerDay_def TicksPerHour_def TicksPerMinute_def TicksPerSecond_def)
  show ?thesis
    unfolding c
    by (simp add: bucket_policy_def TicksPerMillisecond_def s m h ms hm l1 l2 l3)
qed

lemma Get_DurationString_from_day:
  assumes "TicksPerDay \<le> t"
  shows "Get_DurationString t =
    string_of_int (t div TicksPerDay) @ ''d '' @
    string_of_int (t mod TicksPerDay div TicksPerHour) @ ''h '' @
    string_of_int (t mod TicksPerHour div TicksPerMinute) @ ''m''"
proof -
  have "0 \<le> t" using assms by (simp add: TicksPerDay_def)
  then show ?thesis using assms
    by (simp add: Get_DurationString_def span_components)
qed

text \<open>
  C2 (as amended): for every non-negative duration the renderer's \<^verbatim>\<open>formatDuration\<close>
  follows the bucketing policy: seconds below a minute, minutes and seconds below an
  hour, hours and minutes below a day, days and hours from a day on, every component a
  floor of the remaining span; 59000 ms gives "59s", 60000 ms "1m 0s", 3661000 ms "1h 1m"
  and 90000000 ms "1d 1h". The scripted monitor's \<^verbatim>\<open>Get-DurationString\<close> gives the same
  strings below a day and three units, days, hours and minutes, from a day on.
\<close>

theorem duration_buckets:
  assumes "0 \<le> d" and "0 \<le> t"
  shows "formatDuration d = bucket_policy d \<and>
         formatDuration 59000 = ''59s'' \<and>
         formatDuration 60000 = ''1m 0s'' \<and>
         formatDuration 3661000 = ''1h 1m'' \<and>
         formatDuration 90000000 = ''1d 1h'' \<and>
         Get_DurationString t =
           (if t < TicksPerDay then bucket_policy (t div TicksPerMillisecond)
            else string_of_int (t div TicksPerDay) @ ''d '' @
                 string_of_int (t mod TicksPerDay div TicksPerHour) @ ''h '' @
                 string_of_int (t mod TicksPerHour div TicksPerMinute) @ ''m'')"
proof -
  have e1: "formatDuration 59000 = ''59s''" by code_simp
  have e2: "formatDuration 60000 = ''1m 0s''" by code_simp
  have e3: "formatDuration 3661000 = ''1h 1m''" by code_simp
  have e4: "formatDuration 90000000 = ''1d 1h''" by code_simp
  show ?thesis
    using assms e1 e2 e3 e4
    by (simp add: formatDuration_bucket Get_DurationString_below_day
        Get_DurationString_from_day)
qed

text \<open>Two minutes and five seconds in both monitors, and a day, an hour and a minute.\<close>

theorem duration_buckets_witness:
  "formatDuration 125000 = ''2m 5s'' \<and>
   Get_DurationString (125000 * TicksPerMillisecond) = ''2m 5s'' \<and>
   Get_DurationString (90061000 * TicksPerMillisecond) = ''1d 1h 1m''"
proof -
  have a: "(0::int) \<le> 125000" by simp
  have b: "(0::int) \<le> 125000 * TicksPerMillisecond" by (simp add: TicksPerMillisecond_def)
  have c: "(0::int) \<le> 90061000 * TicksPerMillisecond" by (simp add: TicksPerMillisecond_def)
  have p: "bucket_policy 125000 = ''2m 5s''" by code_simp
  have q: "string_of_int (90061000 * TicksPerMillisecond div TicksPerDay) @ ''d '' @
           string_of_int (90061000 * TicksPerMillisecond mod TicksPerDay div TicksPerHour) @
           ''h '' @
           string_of_int (90061000 * TicksPerMillisecond mod TicksPerHour div TicksPerMinute) @
           ''m'' = ''1d 1h 1m''"
    by code_simp
  have r: "125000 * TicksPerMillisecond div TicksPerMillisecond = 125000"
    "125000 * TicksPerMillisecond < TicksPerDay"
    "\<not> 90061000 * TicksPerMillisecond < TicksPerDay"
    by (simp_all add: TicksPerMillisecond_def TicksPerDay_def)
  show ?thesis
    using duration_buckets[OF a b] duration_buckets[OF a c] p q r by simp
qed

text \<open>
  The claim as stated fails on the scripted monitor: at 90000000 ms the policy gives
  "1d 1h", and \<^verbatim>\<open>Get-DurationString\<close> gives "1d 1h 0m".
\<close>

theorem duration_three_units_counterexample:
  "Get_DurationString (90000000 * TicksPerMillisecond) = ''1d 1h 0m'' \<and>
   bucket_policy 90000000 = ''1d 1h'' \<and>
   Get_DurationString (90000000 * TicksPerMillisecond) \<noteq> bucket_policy 90000000"
  by code_simp

section \<open>Properties of the state tracker\<close>

lemma trackState_Item:
  "Item (fst (trackState stateStore i isUp now)) i = Some (snd (trackState stateStore i isUp now))"
  by (auto simp: trackState_def Item_def set_Item_def Let_def split: option.splits)

lemma trackState_Status: "Status (snd (trackState stateStore i isUp now)) = isUp"
  by (auto simp: trackState_def Let_def split: option.splits)

lemma trackState_present:
  assumes "Item stateStore i = Some st"
  shows "snd (trackState stateStore i isUp now) =
    (if Status st \<noteq> isUp then \<lparr> Status = isUp, ChangeTime = now \<rparr> else st)"
  using assms by (cases st) (simp add: trackState_def Let_def)

lemma states_length: "length (states stateStore i obs) = length obs"
  by (induction obs arbitrary: stateStore) (simp_all add: split_beta Let_def)

lemma states_hd:
  "states stateStore i (ob # obs) ! 0 = snd (trackState stateStore i (fst ob) (snd ob))"
  by (simp add: split_beta Let_def)

lemma states_Suc:
  "states stateStore i (ob # obs) ! Suc k =
   states (fst (trackState stateStore i (fst ob) (snd ob))) i obs ! k"
  by (simp add: split_beta Let_def)

lemma states_next:
  "Suc k < length obs \<Longrightarrow>
   states stateStore i obs ! Suc k =
     (if fst (obs ! Suc k) \<noteq> fst (obs ! k)
      then \<lparr> Status = fst (obs ! Suc k), ChangeTime = snd (obs ! Suc k) \<rparr>
      else states stateStore i obs ! k)"
proof (induction obs arbitrary: stateStore k)
  case Nil
  then show ?case by simp
next
  case (Cons ob obs)
  show ?case
  proof (cases k)
    case 0
    then obtain ob2 rest where obs: "obs = ob2 # rest"
      using Cons.prems by (cases obs) auto
    let ?r = "trackState stateStore i (fst ob) (snd ob)"
    have "Item (fst ?r) i = Some (snd ?r)" by (rule trackState_Item)
    then have "snd (trackState (fst ?r) i (fst ob2) (snd ob2)) =
      (if Status (snd ?r) \<noteq> fst ob2 then \<lparr> Status = fst ob2, ChangeTime = snd ob2 \<rparr>
       else snd ?r)"
      by (rule trackState_present)
    then show ?thesis
      using 0 obs by (auto simp: split_beta Let_def trackState_Status)
  next
    case (Suc k')
    then have "Suc k' < length obs" using Cons.prems by simp
    from Cons.IH[OF this] show ?thesis
      using Suc by (simp add: split_beta Let_def)
  qed
qed

lemma updateTracker_at:
  "updateTracker uptimeTrackers j currentStatus t j =
     (case uptimeTrackers j of
        None \<Rightarrow> Some \<lparr> tracker_status = currentStatus, since = t \<rparr>
      | Some tr \<Rightarrow>
          if tracker_status tr \<noteq> currentStatus
          then Some \<lparr> tracker_status = currentStatus, since = t \<rparr>
          else Some tr)"
  by (cases "uptimeTrackers j") (auto simp: updateTracker_def)

lemma updateTracker_status:
  "map_option tracker_status (updateTracker uptimeTrackers j currentStatus t j) = Some currentStatus"
  by (auto simp: updateTracker_at split: option.splits)

lemma tracker_states_length: "length (tracker_states trk j obs) = length obs"
  by (induction obs arbitrary: trk) (simp_all add: Let_def)

lemma tracker_states_next:
  "Suc k < length obs \<Longrightarrow>
   tracker_states trk j obs ! Suc k =
     (if fst (obs ! Suc k) \<noteq> fst (obs ! k)
      then Some \<lparr> tracker_status = fst (obs ! Suc k), since = snd (obs ! Suc k) \<rparr>
      else tracker_states trk j obs ! k)"
proof (induction obs arbitrary: trk k)
  case Nil
  then show ?case by simp
next
  case (Cons ob obs)
  show ?case
  proof (cases k)
    case 0
    then obtain ob2 rest where obs: "obs = ob2 # rest"
      using Cons.prems by (cases obs) auto
    let ?m = "updateTracker trk j (fst ob) (snd ob)"
    obtain tr where tr: "?m j = Some tr" "tracker_status tr = fst ob"
      using updateTracker_status[of trk j "fst ob" "snd ob"] by auto
    show ?thesis
      using 0 obs tr by (auto simp: Let_def updateTracker_at[of ?m])
  next
    case (Suc k')
    then have "Suc k' < length obs" using Cons.prems by simp
    from Cons.IH[OF this] show ?thesis
      using Suc by (simp add: Let_def)
  qed
qed

lemma trackState_step:
  "(Item stateStore i = None \<longrightarrow>
      snd (trackState stateStore i isUp now) = \<lparr> Status = isUp, ChangeTime = now \<rparr> \<and>
      now - ChangeTime (snd (trackState stateStore i isUp now)) = 0) \<and>
   (Item stateStore i = Some st \<and> Status st \<noteq> isUp \<longrightarrow>
      Status (snd (trackState stateStore i isUp now)) = isUp \<and>
      ChangeTime (snd (trackState stateStore i isUp now)) = now) \<and>
   (Item stateStore i = Some st \<and> Status st = isUp \<longrightarrow>
      trackState stateStore i isUp now = (stateStore, st)) \<and>
   Item (fst (trackState stateStore i isUp now)) i =
     Some (snd (trackState stateStore i isUp now)) \<and>
   Status (snd (trackState stateStore i isUp now)) = isUp \<and>
   (Item stateStore i = Some st \<and>
      ChangeTime (snd (trackState stateStore i isUp now)) \<noteq> ChangeTime st \<longrightarrow>
      Status st \<noteq> isUp)"
  using trackState_Item[of stateStore i isUp now] trackState_Status[of stateStore i isUp now]
  by (auto simp: trackState_def Let_def split: option.splits if_splits)

lemma states_sequence:
  "length (states stateStore i obs) = length obs \<and>
   (Item stateStore i = None \<and> obs \<noteq> [] \<longrightarrow>
      hd (states stateStore i obs) = \<lparr> Status = fst (hd obs), ChangeTime = snd (hd obs) \<rparr>) \<and>
   (Suc k < length obs \<longrightarrow>
      states stateStore i obs ! Suc k =
        (if fst (obs ! Suc k) \<noteq> fst (obs ! k)
         then \<lparr> Status = fst (obs ! Suc k), ChangeTime = snd (obs ! Suc k) \<rparr>
         else states stateStore i obs ! k))"
proof (intro conjI impI)
  show "length (states stateStore i obs) = length obs"
    by (rule states_length)
next
  assume "Suc k < length obs"
  then show "states stateStore i obs ! Suc k =
        (if fst (obs ! Suc k) \<noteq> fst (obs ! k)
         then \<lparr> Status = fst (obs ! Suc k), ChangeTime = snd (obs ! Suc k) \<rparr>
         else states stateStore i obs ! k)"
    by (rule states_next)
next
  assume "Item stateStore i = None \<and> obs \<noteq> []"
  then show "hd (states stateStore i obs) =
      \<lparr> Status = fst (hd obs), ChangeTime = snd (hd obs) \<rparr>"
    by (cases obs) (simp_all add: trackState_def Let_def)
qed

lemma updateTracker_step:
  "(uptimeTrackers j = None \<longrightarrow>
      updateTracker uptimeTrackers j currentStatus t j =
        Some \<lparr> tracker_status = currentStatus, since = t \<rparr> \<and>
      elapsed (updateTracker uptimeTrackers j currentStatus t) j t t = 0) \<and>
   (uptimeTrackers j = Some tr \<and> tracker_status tr \<noteq> currentStatus \<longrightarrow>
      updateTracker uptimeTrackers j currentStatus t j =
        Some \<lparr> tracker_status = currentStatus, since = t \<rparr>) \<and>
   (uptimeTrackers j = Some tr \<and> tracker_status tr = currentStatus \<longrightarrow>
      updateTracker uptimeTrackers j currentStatus t = uptimeTrackers) \<and>
   map_option tracker_status (updateTracker uptimeTrackers j currentStatus t j) =
     Some currentStatus \<and>
   (uptimeTrackers j = Some tr \<and>
      map_option since (updateTracker uptimeTrackers j currentStatus t j) \<noteq> Some (since tr)
      \<longrightarrow> tracker_status tr \<noteq> currentStatus)"
  using updateTracker_status[of uptimeTrackers j currentStatus t]
  by (auto simp: updateTracker_def elapsed_def split: option.splits if_splits)

lemma tracker_states_sequence:
  "length (tracker_states uptimeTrackers j obs) = length obs \<and>
   (uptimeTrackers j = None \<and> obs \<noteq> [] \<longrightarrow>
      hd (tracker_states uptimeTrackers j obs) =
        Some \<lparr> tracker_status = fst (hd obs), since = snd (hd obs) \<rparr>) \<and>
   (Suc k < length obs \<longrightarrow>
      tracker_states uptimeTrackers j obs ! Suc k =
        (if fst (obs ! Suc k) \<noteq> fst (obs ! k)
         then Some \<lparr> tracker_status = fst (obs ! Suc k), since = snd (obs ! Suc k) \<rparr>
         else tracker_states uptimeTrackers j obs ! k))"
proof (intro conjI impI)
  show "length (tracker_states uptimeTrackers j obs) = length obs"
    by (rule tracker_states_length)
next
  assume "Suc k < length obs"
  then show "tracker_states uptimeTrackers j obs ! Suc k =
        (if fst (obs ! Suc k) \<noteq> fst (obs ! k)
         then Some \<lparr> tracker_status = fst (obs ! Suc k), since = snd (obs ! Suc k) \<rparr>
         else tracker_states uptimeTrackers j obs ! k)"
    by (rule tracker_states_next)
next
  assume "uptimeTrackers j = None \<and> obs \<noteq> []"
  then show "hd (tracker_states uptimeTrackers j obs) =
        Some \<lparr> tracker_status = fst (hd obs), since = snd (hd obs) \<rparr>"
    by (cases obs) (simp_all add: updateTracker_def Let_def)
qed

text \<open>
  C3: one update of the state tracker for an id, in the scripted monitor and in the
  renderer. With no entry for the id, the entry is created from the observed status and
  the observation time (the span since the change, taken at that same time, is zero).
  With an entry whose status differs from the observed one, both fields are set to the
  observed status and time. With an entry of the same status nothing changes. The stored
  status always ends up equal to the observation, so the time of change moves only when
  the stored status differs from the observed one. Over any sequence of observations this
  gives: the first observation creates the entry, and each later observation either flips
  relative to the previous one and resets the entry to its own status and time, or leaves
  the entry as it was.
\<close>

theorem state_tracker_update:
  "((Item stateStore i = None \<longrightarrow>
      snd (trackState stateStore i isUp now) = \<lparr> Status = isUp, ChangeTime = now \<rparr> \<and>
      now - ChangeTime (snd (trackState stateStore i isUp now)) = 0) \<and>
    (Item stateStore i = Some st \<and> Status st \<noteq> isUp \<longrightarrow>
      Status (snd (trackState stateStore i isUp now)) = isUp \<and>
      ChangeTime (snd (trackState stateStore i isUp now)) = now) \<and>
    (Item stateStore i = Some st \<and> Status st = isUp \<longrightarrow>
      trackState stateStore i isUp now = (stateStore, st)) \<and>
    Item (fst (trackState stateStore i isUp now)) i =
      Some (snd (trackState stateStore i isUp now)) \<and>
    Status (snd (trackState stateStore i isUp now)) = isUp \<and>
    (Item stateStore i = Some st \<and>
      ChangeTime (snd (trackState stateStore i isUp now)) \<noteq> ChangeTime st \<longrightarrow>
      Status st \<noteq> isUp)) \<and>
   (length (states stateStore i obs) = length obs \<and>
    (Item stateStore i = None \<and> obs \<noteq> [] \<longrightarrow>
      hd (states stateStore i obs) = \<lparr> Status = fst (hd obs), ChangeTime = snd (hd obs) \<rparr>) \<and>
    (Suc k < length obs \<longrightarrow>
      states stateStore i obs ! Suc k =
        (if fst (obs ! Suc k) \<noteq> fst (obs ! k)
         then \<lparr> Status = fst (obs ! Suc k), ChangeTime = snd (obs ! Suc k) \<rparr>
         else states stateStore i obs ! k))) \<and>
   ((uptimeTrackers j = None \<longrightarrow>
      updateTracker uptimeTrackers j currentStatus t j =
        Some \<lparr> tracker_status = currentStatus, since = t \<rparr> \<and>
      elapsed (updateTracker uptimeTrackers j currentStatus t) j t t = 0) \<and>
    (uptimeTrackers j = Some tr \<and> tracker_status tr \<noteq> currentStatus \<longrightarrow>
      updateTracker uptimeTrackers j currentStatus t j =
        Some \<lparr> tracker_status = currentStatus, since = t \<rparr>) \<and>
    (uptimeTrackers j = Some tr \<and> tracker_status tr = currentStatus \<longrightarrow>
      updateTracker uptimeTrackers j currentStatus t = uptimeTrackers) \<and>
    map_option tracker_status (updateTracker uptimeTrackers j currentStatus t j) =
      Some currentStatus \<and>
    (uptimeTrackers j = Some tr \<and>
      map_option since (updateTracker uptimeTrackers j currentStatus t j) \<noteq> Some (since tr)
      \<longrightarrow> tracker_status tr \<noteq> currentStatus)) \<and>
   (length (tracker_states uptimeTrackers j obs') = length obs' \<and>
    (uptimeTrackers j = None \<and> obs' \<noteq> [] \<longrightarrow>
      hd (tracker_states uptimeTrackers j obs') =
        Some \<lparr> tracker_status = fst (hd obs'), since = snd (hd obs') \<rparr>) \<and>
    (Suc k' < length obs' \<longrightarrow>
      tracker_states uptimeTrackers j obs' ! Suc k' =
        (if fst (obs' ! Suc k') \<noteq> fst (obs' ! k')
         then Some \<lparr> tracker_status = fst (obs' ! Suc k'), since = snd (obs' ! Suc k') \<rparr>
         else tracker_states uptimeTrackers j obs' ! k')))"
  by (rule conjI[OF trackState_step conjI[OF states_sequence
        conjI[OF updateTracker_step tracker_states_sequence]]])

text \<open>
  The specification's sequence: the time of change moves at the third and at the fifth
  observation only.
\<close>

theorem state_tracker_update_witness:
  "states Map.empty ''A'' flips_ps ! 2 = \<lparr> Status = Some False, ChangeTime = 20 \<rparr> \<and>
   states Map.empty ''A'' flips_ps ! 3 = states Map.empty ''A'' flips_ps ! 2 \<and>
   hd (states Map.empty ''A'' flips_ps) = \<lparr> Status = Some True, ChangeTime = 0 \<rparr> \<and>
   tracker_states Map.empty ''A'' flips ! 4 = Some \<lparr> tracker_status = True, since = 40 \<rparr> \<and>
   map ChangeTime (states Map.empty ''A'' flips_ps) = [0, 0, 20, 20, 40] \<and>
   map (map_option since) (tracker_states Map.empty ''A'' flips) =
     [Some 0, Some 0, Some 20, Some 20, Some 40] \<and>
   snd (trackState Map.empty ''A'' (Some True) 0) = \<lparr> Status = Some True, ChangeTime = 0 \<rparr> \<and>
   snd (trackState store_A_up ''A'' (Some False) 20) =
     \<lparr> Status = Some False, ChangeTime = 20 \<rparr> \<and>
   trackState store_A_up ''A'' (Some True) 10 =
     (store_A_up, \<lparr> Status = Some True, ChangeTime = 0 \<rparr>) \<and>
   updateTracker Map.empty ''A'' True 1000 ''A'' = Some \<lparr> tracker_status = True, since = 1000 \<rparr> \<and>
   updateTracker trackers_A_up ''A'' False 3000 ''A'' =
     Some \<lparr> tracker_status = False, since = 3000 \<rparr> \<and>
   updateTracker trackers_A_up ''A'' True 2000 = trackers_A_up"
proof -
  note u = state_tracker_update[where stateStore = Map.empty and i = "''A''"
      and obs = flips_ps and uptimeTrackers = Map.empty and j = "''A''" and obs' = flips]
  note ps1 = u[where k = 1, THEN conjunct2, THEN conjunct1]
  note ps2 = u[where k = 2, THEN conjunct2, THEN conjunct1]
  note js3 = u[where k' = 3, THEN conjunct2, THEN conjunct2, THEN conjunct2]
  have l: "length flips_ps = 5" "length flips = 5" "flips_ps \<noteq> []"
    by (simp_all add: flips_ps_def flips_def)
  have n: "Item (Map.empty :: HostState hashtable) ''A'' = None"
    by (simp add: Item_def)
  have v: "flips_ps ! 1 = (Some True, 10)" "flips_ps ! 2 = (Some False, 20)"
    "flips_ps ! 3 = (Some False, 30)" "flips ! 3 = (False, 30)" "flips ! 4 = (True, 40)"
    "hd flips_ps = (Some True, 0)"
    by (simp_all add: flips_ps_def flips_def)
  have a: "states Map.empty ''A'' flips_ps ! 2 = \<lparr> Status = Some False, ChangeTime = 20 \<rparr>"
    using ps1[THEN conjunct2, THEN conjunct2] l v
    by (simp add: numeral_2_eq_2)
  have b: "states Map.empty ''A'' flips_ps ! 3 = states Map.empty ''A'' flips_ps ! 2"
    using ps2[THEN conjunct2, THEN conjunct2] l v
    by (simp add: numeral_3_eq_3)
  have c: "hd (states Map.empty ''A'' flips_ps) = \<lparr> Status = Some True, ChangeTime = 0 \<rparr>"
    using ps1[THEN conjunct2, THEN conjunct1] l n v by simp
  have d: "tracker_states Map.empty ''A'' flips ! 4 =
      Some \<lparr> tracker_status = True, since = 40 \<rparr>"
    using js3[THEN conjunct2, THEN conjunct2] l v
    by (simp add: eval_nat_numeral)
  have e: "map ChangeTime (states Map.empty ''A'' flips_ps) = [0, 0, 20, 20, 40]"
    by code_simp
  have f: "map (map_option since) (tracker_states Map.empty ''A'' flips) =
     [Some 0, Some 0, Some 20, Some 20, Some 40]"
    by code_simp
  have sa: "Item store_A_up ''A'' = Some \<lparr> Status = Some True, ChangeTime = 0 \<rparr>"
    by (simp add: store_A_up_def Item_def set_Item_def)
  have g1: "snd (trackState Map.empty ''A'' (Some True) 0) =
      \<lparr> Status = Some True, ChangeTime = 0 \<rparr>"
    using state_tracker_update[where stateStore = Map.empty and i = "''A''"
        and isUp = "Some True" and now = 0, THEN conjunct1, THEN conjunct1] n
    by blast
  have g2: "snd (trackState store_A_up ''A'' (Some False) 20) =
      \<lparr> Status = Some False, ChangeTime = 20 \<rparr>"
    using state_tracker_update[where stateStore = store_A_up and i = "''A''"
        and st = "\<lparr> Status = Some True, ChangeTime = 0 \<rparr>"
        and isUp = "Some False" and now = 20, THEN conjunct1, THEN conjunct2, THEN conjunct1]
      sa
    by (cases "snd (trackState store_A_up ''A'' (Some False) 20)") simp
  have g3: "trackState store_A_up ''A'' (Some True) 10 =
      (store_A_up, \<lparr> Status = Some True, ChangeTime = 0 \<rparr>)"
    using state_tracker_update[where stateStore = store_A_up and i = "''A''"
        and st = "\<lparr> Status = Some True, ChangeTime = 0 \<rparr>"
        and isUp = "Some True" and now = 10, THEN conjunct1, THEN conjunct2, THEN conjunct2,
        THEN conjunct1] sa
    by simp
  have ta: "trackers_A_up ''A'' = Some \<lparr> tracker_status = True, since = 1000 \<rparr>"
    by (simp add: trackers_A_up_def)
  have g4: "updateTracker Map.empty ''A'' True 1000 ''A'' =
      Some \<lparr> tracker_status = True, since = 1000 \<rparr>"
    using state_tracker_update[where uptimeTrackers = Map.empty and j = "''A''"
        and currentStatus = True and t = 1000, THEN conjunct2, THEN conjunct2,
        THEN conjunct1, THEN conjunct1]
    by simp
  have g5: "updateTracker trackers_A_up ''A'' False 3000 ''A'' =
      Some \<lparr> tracker_status = False, since = 3000 \<rparr>"
    using state_tracker_update[where uptimeTrackers = trackers_A_up and j = "''A''"
        and tr = "\<lparr> tracker_status = True, since = 1000 \<rparr>"
        and currentStatus = False and t = 3000, THEN conjunct2, THEN conjunct2,
        THEN conjunct1, THEN conjunct2, THEN conjunct1] ta
    by simp
  have g6: "updateTracker trackers_A_up ''A'' True 2000 = trackers_A_up"
    using state_tracker_update[where uptimeTrackers = trackers_A_up and j = "''A''"
        and tr = "\<lparr> tracker_status = True, since = 1000 \<rparr>"
        and currentStatus = True and t = 2000, THEN conjunct2, THEN conjunct2,
        THEN conjunct1, THEN conjunct2, THEN conjunct2, THEN conjunct1] ta
    by simp
  show ?thesis using a b c d e f g1 g2 g3 g4 g5 g6 by simp
qed

section \<open>Properties of one iteration of the scripted monitor\<close>

lemma processEntry_fields:
  "fst (processEntry now statuses entry stateStore) =
     \<lparr> node_id = node_id entry, name = name entry, address = address entry,
       port = port entry, primaryParentId = primaryParentId entry,
       secondaryParentId = secondaryParentId entry, icon = icon entry,
       iconType = iconType entry, node_x = node_x entry, node_y = node_y entry,
       status = Item statuses (node_id entry),
       activeParentId = resolveActiveParent entry statuses,
       uptime = Get_DurationString
         (now - ChangeTime (snd (trackState stateStore (node_id entry)
                                   (Item statuses (node_id entry)) now))) \<rparr>"
  by (simp add: processEntry_def Let_def split_beta)

lemma processEntry_store:
  "snd (processEntry now statuses entry stateStore) =
     fst (trackState stateStore (node_id entry) (Item statuses (node_id entry)) now)"
  by (simp add: processEntry_def Let_def split_beta)

lemma processEntries_length:
  "length (fst (processEntries now statuses hosts stateStore)) = length hosts"
  by (induction hosts arbitrary: stateStore) (simp_all add: split_beta Let_def)

lemma processEntries_map:
  assumes "\<And>entry stateStore. f (fst (processEntry now statuses entry stateStore)) = g entry"
  shows "map f (fst (processEntries now statuses hosts stateStore)) = map g hosts"
  using assms by (induction hosts arbitrary: stateStore) (simp_all add: split_beta Let_def)

lemma trackState_other:
  "hkey k \<noteq> hkey i \<Longrightarrow> Item (fst (trackState stateStore i isUp now)) k = Item stateStore k"
  by (auto simp: trackState_def Item_def set_Item_def Let_def split: option.splits)

lemma processEntries_store_other:
  "hkey k \<notin> hkey ` node_id ` set hosts \<Longrightarrow>
   Item (snd (processEntries now statuses hosts stateStore)) k = Item stateStore k"
proof (induction hosts arbitrary: stateStore)
  case Nil
  then show ?case by simp
next
  case (Cons entry hosts)
  then have a: "hkey k \<noteq> hkey (node_id entry)" and b: "hkey k \<notin> hkey ` node_id ` set hosts"
    by auto
  show ?case
    using Cons.IH[OF b] a
    by (simp add: split_beta Let_def processEntry_store trackState_other)
qed

lemma checkEntry_key:
  "ContainsKey (fst (checkEntry net entry acc)) (node_id entry)"
  by (auto simp: checkEntry_def ContainsKey_def set_Item_def split_beta Let_def)

lemma checkEntry_keeps:
  "ContainsKey (fst acc) k \<Longrightarrow> ContainsKey (fst (checkEntry net entry acc)) k"
  by (auto simp: checkEntry_def ContainsKey_def set_Item_def split_beta Let_def)

lemma performChecks_keeps:
  "ContainsKey (fst acc) k \<Longrightarrow> ContainsKey (fst (performChecks net hosts acc)) k"
  by (induction hosts arbitrary: acc) (simp_all add: checkEntry_keeps)

lemma performChecks_keys:
  "list_all (\<lambda>entry. ContainsKey (fst (performChecks net hosts acc)) (node_id entry)) hosts"
proof (induction hosts arbitrary: acc)
  case Nil
  then show ?case by simp
next
  case (Cons entry hosts)
  have "ContainsKey (fst (performChecks net hosts (checkEntry net entry acc))) (node_id entry)"
    by (rule performChecks_keeps) (rule checkEntry_key)
  then show ?case using Cons.IH by simp
qed

lemma tick_finalResults:
  "finalResults (tick net now hosts stateStore) =
     fst (processEntries now (fst (performChecks net hosts (Map.empty, []))) hosts stateStore)"
  by (simp add: tick_def split_beta Let_def)

lemma tick_stateStore:
  "stateStore_after (tick net now hosts stateStore) =
     snd (processEntries now (fst (performChecks net hosts (Map.empty, []))) hosts stateStore)"
  by (simp add: tick_def split_beta Let_def)

lemma tick_io_log:
  "io_log (tick net now hosts stateStore) = snd (performChecks net hosts (Map.empty, []))"
  by (simp add: tick_def split_beta Let_def)

section \<open>Properties of one run of the host-process scheduler\<close>

lemma probeNode_good:
  "\<not> bad_port n \<Longrightarrow>
   \<exists>online c. probeNode e log i n =
     (Some (n \<lparr> status_field := Some online,
                 responseTime := Some (settled e i - started e i) \<rparr>), log @ [c])"
  by (simp add: probeNode_def Let_def) blast

lemma probeNode_bad: "bad_port n \<Longrightarrow> probeNode e log i n = (None, log)"
  by (simp add: probeNode_def Let_def)


lemma probeAll_length: "length (fst (probeAll e log i ns)) = length ns"
  by (induction ns arbitrary: log i) (simp_all add: split_beta Let_def)

lemma those_Cons_Some:
  "those (x # xs) = Some ys \<Longrightarrow> \<exists>y ys'. x = Some y \<and> those xs = Some ys' \<and> ys = y # ys'"
  by (cases x; cases "those xs") auto


lemma probeAll_map:
  assumes "\<And>log i n r. fst (probeNode e log i n) = Some r \<Longrightarrow> f r = g n"
    and "those (fst (probeAll e log i ns)) = Some rs"
  shows "map f rs = map g ns"
  using assms(2)
proof (induction ns arbitrary: log i rs)
  case Nil
  then show ?case by simp
next
  case (Cons n ns)
  from Cons.prems obtain r rs' where r: "fst (probeNode e log i n) = Some r"
    and rs': "those (fst (probeAll e (snd (probeNode e log i n)) (Suc i) ns)) = Some rs'"
    and rs: "rs = r # rs'"
    using those_Cons_Some[of "fst (probeNode e log i n)"
        "fst (probeAll e (snd (probeNode e log i n)) (Suc i) ns)" rs]
    by (auto simp: split_beta Let_def)
  show ?case
    using Cons.IH[OF rs'] assms(1)[OF r] rs by simp
qed

lemma probeNode_fields:
  assumes "fst (probeNode e log i n) = Some r"
  shows "r = n \<lparr> status_field := status_field r,
                  responseTime := Some (settled e i - started e i) \<rparr>"
    and "status_field r \<noteq> None"
  using assms by (auto simp: probeNode_def Let_def split: if_splits)

lemma probeAll_status:
  "those (fst (probeAll e log i ns)) = Some rs \<Longrightarrow> list_all (\<lambda>r. status_field r \<noteq> None) rs"
proof -
  assume a: "those (fst (probeAll e log i ns)) = Some rs"
  have "map (\<lambda>r. status_field r \<noteq> None) rs = map (\<lambda>n. True) ns"
    by (rule probeAll_map[OF _ a]) (simp add: probeNode_fields(2))
  then have "\<forall>b \<in> set (map (\<lambda>r. status_field r \<noteq> None) rs). b"
    by simp
  then show ?thesis by (simp add: list_all_iff)
qed

lemma probeAll_log_length:
  "\<not> list_ex bad_port ns \<Longrightarrow> length (snd (probeAll e log i ns)) = length log + length ns"
proof (induction ns arbitrary: log i)
  case Nil
  then show ?case by simp
next
  case (Cons n ns)
  then have g: "\<not> bad_port n" and rest: "\<not> list_ex bad_port ns" by simp_all
  obtain online c where "probeNode e log i n =
     (Some (n \<lparr> status_field := Some online,
                 responseTime := Some (settled e i - started e i) \<rparr>), log @ [c])"
    using probeNode_good[OF g] by blast
  then show ?case using Cons.IH[OF rest, of "log @ [c]" "Suc i"]
    by (simp add: split_beta Let_def)
qed

lemma runMonitoring_array:
  "cfg_nodes c = NodeArray ns \<Longrightarrow>
   runMonitoring e (Some c) =
     (case those (fst (probeAll e [] 0 ns)) of
        None \<Rightarrow> (Threw, snd (probeAll e [] 0 ns))
      | Some statusResults \<Rightarrow>
          (Published \<lparr> nodes = statusResults, updated = timeLabel e \<rparr>,
           snd (probeAll e [] 0 ns)))"
  by (simp add: runMonitoring_def split_beta Let_def)

lemma runMonitoring_Published:
  assumes "cfg_nodes c = NodeArray ns" and "fst (runMonitoring e (Some c)) = Published snap"
  shows "those (fst (probeAll e [] 0 ns)) = Some (nodes snap)"
  using assms by (auto simp: runMonitoring_array split: option.splits)



lemma runMonitoring_Published_array:
  "fst (runMonitoring e cfg) = Published snap \<Longrightarrow>
   \<exists>c ns. cfg = Some c \<and> cfg_nodes c = NodeArray ns"
  by (auto simp: runMonitoring_def split_beta Let_def
      split: option.splits nodes_value.splits)

section \<open>Properties of the start and stop handlers\<close>

lemma clearInterval_single:
  "single_timer s \<Longrightarrow> monitoringInterval s = Some h \<Longrightarrow> clearInterval h (armed s) = []"
  by (auto simp: single_timer_def clearInterval_def split: list.splits)

lemma single_timer_None:
  "single_timer s \<Longrightarrow> monitoringInterval s = None \<Longrightarrow> armed s = []"
  by (auto simp: single_timer_def split: list.splits)

lemma start_enter_armed:
  "single_timer s \<Longrightarrow> armed (start_enter cfg s) = []"
  by (auto simp: start_enter_def Let_def clearInterval_single single_timer_None
      split: option.splits)

lemma start_enter_frame:
  "monitoringInterval (start_enter cfg s) = monitoringInterval s"
  "next_handle (start_enter cfg s) = next_handle s"
  "awaiting (start_enter cfg s) = awaiting s"
  by (simp_all add: start_enter_def Let_def split: option.splits)

lemma start_rejected:
  assumes "cfg = None \<or> first_run cfg = Throws"
  shows "snd (start cfg s) = Rejected"
    and "armed (fst (start cfg s)) = armed (start_enter cfg s)"
    and "next_handle (fst (start cfg s)) = next_handle s"
  using assms
  by (auto simp: start_def Let_def start_exit_def start_enter_frame)

lemma start_missing_nodes:
  assumes "cfg_nodes c = Missing"
  shows "snd (start (Some c) s) = Success"
    and "armed (fst (start (Some c) s)) =
         armed (start_enter (Some c) s) @
           [(next_handle s, case interval c of None \<Rightarrow> 2000
                            | Some i \<Rightarrow> if i \<noteq> 0 then i else 2000)]"
    and "monitoringInterval (fst (start (Some c) s)) = Some (next_handle s)"
    and "runMonitoring e (Some c) = (Returned, [])"
  using assms
  by (auto simp: start_def Let_def first_run_def start_exit_def start_enter_frame
      runMonitoring_def)

lemma start_accepted:
  assumes "first_run (Some c) \<noteq> Throws"
  shows "snd (start (Some c) s) = Success"
    and "armed (fst (start (Some c) s)) =
         armed (start_enter (Some c) s) @
           [(next_handle s, case interval c of None \<Rightarrow> 2000
                            | Some i \<Rightarrow> if i \<noteq> 0 then i else 2000)]"
    and "monitoringInterval (fst (start (Some c) s)) = Some (next_handle s)"
  using assms
  by (auto simp: start_def Let_def start_exit_def start_enter_frame)

lemma start_single: "single_timer s \<Longrightarrow> single_timer (fst (start cfg s))"
proof -
  assume s: "single_timer s"
  show ?thesis
  proof (cases "cfg = None \<or> first_run cfg = Throws")
    case True
    then show ?thesis
      using start_rejected(2)[OF True, of s] start_enter_armed[OF s, of cfg]
      by (simp add: single_timer_def)
  next
    case False
    then obtain c where c: "cfg = Some c" "first_run (Some c) \<noteq> Throws"
      by (cases cfg) auto
    show ?thesis
      using start_accepted(2,3)[OF c(2), of s] start_enter_armed[OF s, of cfg] c(1)
      by (simp add: single_timer_def)
  qed
qed

lemma stop_idle:
  "single_timer s \<Longrightarrow> armed (fst (stop s)) = []"
  "monitoringInterval (fst (stop s)) = None"
  "snd (stop s) = Success"
  by (auto simp: stop_def clearInterval_single single_timer_None split: option.splits)

lemma stop_twice: "stop (fst (stop s)) = (fst (stop s), Success)"
  by (simp add: stop_def split: option.splits)

lemma single_timer_idle: "single_timer idle"
  by (simp add: single_timer_def idle_def)

section \<open>Properties of the statuses seen by the resolver\<close>

lemma tick_activeParentId:
  "map activeParentId (finalResults (tick net now hosts stateStore)) =
   map (\<lambda>entry. resolveActiveParent entry (fst (performChecks net hosts (Map.empty, [])))) hosts"
  by (simp add: tick_finalResults processEntries_map processEntry_fields)

lemma tick_status:
  "map status (finalResults (tick net now hosts stateStore)) =
   map (\<lambda>entry. Item (fst (performChecks net hosts (Map.empty, []))) (node_id entry)) hosts"
  by (simp add: tick_finalResults processEntries_map processEntry_fields)

lemma tick_length: "length (finalResults (tick net now hosts stateStore)) = length hosts"
  by (simp add: tick_finalResults processEntries_length)

lemma nth_of_map_eq: "map f xs = map g ys \<Longrightarrow> i < length xs \<Longrightarrow> f (xs ! i) = g (ys ! i)"
  by (metis length_map nth_map)

lemma tick_activeParentId_nth:
  "i < length hosts \<Longrightarrow>
   activeParentId (finalResults (tick net now hosts stateStore) ! i) =
   resolveActiveParent (hosts ! i) (fst (performChecks net hosts (Map.empty, [])))"
  using nth_of_map_eq[OF tick_activeParentId, of i net now hosts stateStore]
  by (simp add: tick_length)

lemma tick_status_nth:
  "i < length hosts \<Longrightarrow>
   status (finalResults (tick net now hosts stateStore) ! i) =
   Item (fst (performChecks net hosts (Map.empty, []))) (node_id (hosts ! i))"
  using nth_of_map_eq[OF tick_status, of i net now hosts stateStore]
  by (simp add: tick_length)

lemma parentUp_Some:
  "parentUp st (Some p) = (p \<noteq> [] \<and> Item st p = Some True)"
  by (auto simp: parentUp_def ContainsKey_def Item_def split: option.splits)

lemma tick_primary_up:
  assumes "i < length hosts" "j < length hosts"
    and "primaryParentId (hosts ! i) = Some (node_id (hosts ! j))"
    and "node_id (hosts ! j) \<noteq> []"
    and "status (finalResults (tick net now hosts stateStore) ! j) = Some True"
  shows "activeParentId (finalResults (tick net now hosts stateStore) ! i) =
         Some (node_id (hosts ! j))"
  using assms
  by (simp add: tick_activeParentId_nth tick_status_nth resolveActiveParent_def Let_def
      parentUp_Some)

lemma tick_secondary_up:
  assumes "i < length hosts" "j < length hosts" "k < length hosts"
    and "primaryParentId (hosts ! i) = Some (node_id (hosts ! k))"
    and "status (finalResults (tick net now hosts stateStore) ! k) \<noteq> Some True"
    and "secondaryParentId (hosts ! i) = Some (node_id (hosts ! j))"
    and "node_id (hosts ! j) \<noteq> []"
    and "status (finalResults (tick net now hosts stateStore) ! j) = Some True"
  shows "activeParentId (finalResults (tick net now hosts stateStore) ! i) =
         Some (node_id (hosts ! j))"
  using assms
  by (simp add: tick_activeParentId_nth tick_status_nth resolveActiveParent_def Let_def
      parentUp_Some)

lemma runMonitoring_no_resolver:
  assumes "cfg_nodes c = NodeArray ns" and "fst (runMonitoring e (Some c)) = Published snap"
  shows "map activeParentId_field (nodes snap) = map activeParentId_field ns"
    and "list_all (\<lambda>r. status_field r \<noteq> None) (nodes snap)"
proof -
  note t = runMonitoring_Published[OF assms]
  show "map activeParentId_field (nodes snap) = map activeParentId_field ns"
    by (rule probeAll_map[OF _ t]) (auto simp: probeNode_def Let_def split: if_splits)
  show "list_all (\<lambda>r. status_field r \<noteq> None) (nodes snap)"
    by (rule probeAll_status[OF t])
qed

text \<open>
  In every iteration of the scripted monitor the statuses map is filled for all hosts
  before the failover logic runs: each published active parent is the resolver's answer on
  the full map, the map has a key for every host, and each published status is the map's
  value. So a host whose primary parent is published as up, at whatever position of the
  list, gets that parent, and a host whose primary is not up and whose secondary is
  published as up gets the secondary. For A without parent, B with primary A and C with
  primary A and secondary B, with A down and B and C up, one iteration publishes no parent
  for A, A for B and B for C. A run of the host-process scheduler waits for every probe
  and publishes every status, and it publishes each node's active parent as the
  configuration carries it.
\<close>

lemma tick_resolves_on_full_statuses:
  "(map activeParentId (finalResults (tick net now hosts stateStore)) =
      map (\<lambda>entry. resolveActiveParent entry (fst (performChecks net hosts (Map.empty, []))))
        hosts \<and>
    map status (finalResults (tick net now hosts stateStore)) =
      map (\<lambda>entry. Item (fst (performChecks net hosts (Map.empty, []))) (node_id entry))
        hosts \<and>
    list_all (\<lambda>entry. ContainsKey (fst (performChecks net hosts (Map.empty, [])))
                (node_id entry)) hosts) \<and>
   (i < length hosts \<and> j < length hosts \<and>
    primaryParentId (hosts ! i) = Some (node_id (hosts ! j)) \<and> node_id (hosts ! j) \<noteq> [] \<and>
    status (finalResults (tick net now hosts stateStore) ! j) = Some True \<longrightarrow>
      activeParentId (finalResults (tick net now hosts stateStore) ! i) =
        Some (node_id (hosts ! j))) \<and>
   (i < length hosts \<and> j < length hosts \<and> k < length hosts \<and>
    primaryParentId (hosts ! i) = Some (node_id (hosts ! k)) \<and>
    status (finalResults (tick net now hosts stateStore) ! k) \<noteq> Some True \<and>
    secondaryParentId (hosts ! i) = Some (node_id (hosts ! j)) \<and> node_id (hosts ! j) \<noteq> [] \<and>
    status (finalResults (tick net now hosts stateStore) ! j) = Some True \<longrightarrow>
      activeParentId (finalResults (tick net now hosts stateStore) ! i) =
        Some (node_id (hosts ! j))) \<and>
   map activeParentId (finalResults (tick net_A_down 0 three_hosts Map.empty)) =
     [None, Some ''A'', Some ''B''] \<and>
   (cfg_nodes c = NodeArray ns \<and> fst (runMonitoring e (Some c)) = Published snap \<longrightarrow>
      map activeParentId_field (nodes snap) = map activeParentId_field ns \<and>
      list_all (\<lambda>r. status_field r \<noteq> None) (nodes snap))"
proof (intro conjI impI)
  show "map activeParentId (finalResults (tick net now hosts stateStore)) =
      map (\<lambda>entry. resolveActiveParent entry (fst (performChecks net hosts (Map.empty, []))))
        hosts"
    by (rule tick_activeParentId)
  show "map status (finalResults (tick net now hosts stateStore)) =
      map (\<lambda>entry. Item (fst (performChecks net hosts (Map.empty, []))) (node_id entry))
        hosts"
    by (rule tick_status)
  show "list_all (\<lambda>entry. ContainsKey (fst (performChecks net hosts (Map.empty, [])))
                (node_id entry)) hosts"
    by (rule performChecks_keys)
  show "map activeParentId (finalResults (tick net_A_down 0 three_hosts Map.empty)) =
     [None, Some ''A'', Some ''B'']"
    by code_simp
next
  assume "i < length hosts \<and> j < length hosts \<and>
    primaryParentId (hosts ! i) = Some (node_id (hosts ! j)) \<and> node_id (hosts ! j) \<noteq> [] \<and>
    status (finalResults (tick net now hosts stateStore) ! j) = Some True"
  then show "activeParentId (finalResults (tick net now hosts stateStore) ! i) =
        Some (node_id (hosts ! j))"
    using tick_primary_up[of i hosts j net now stateStore] by blast
next
  assume "i < length hosts \<and> j < length hosts \<and> k < length hosts \<and>
    primaryParentId (hosts ! i) = Some (node_id (hosts ! k)) \<and>
    status (finalResults (tick net now hosts stateStore) ! k) \<noteq> Some True \<and>
    secondaryParentId (hosts ! i) = Some (node_id (hosts ! j)) \<and> node_id (hosts ! j) \<noteq> [] \<and>
    status (finalResults (tick net now hosts stateStore) ! j) = Some True"
  then show "activeParentId (finalResults (tick net now hosts stateStore) ! i) =
        Some (node_id (hosts ! j))"
    using tick_secondary_up[of i hosts j k net now stateStore] by blast
next
  assume a: "cfg_nodes c = NodeArray ns \<and> fst (runMonitoring e (Some c)) = Published snap"
  then show "map activeParentId_field (nodes snap) = map activeParentId_field ns"
    using runMonitoring_no_resolver(1)[of c ns e snap] by blast
  from a show "list_all (\<lambda>r. status_field r \<noteq> None) (nodes snap)"
    using runMonitoring_no_resolver(2)[of c ns e snap] by blast
qed

text \<open>
  C, the third host, follows its secondary B because the first host A is published as
  down and the second host B as up in the same iteration, and follows its primary A when
  A is published as up; the scheduler's run over the same hosts probes three times.
\<close>

lemma three_hosts_iteration:
  "map status (finalResults (tick net_A_down 0 three_hosts Map.empty)) =
     [Some False, Some True, Some True] \<and>
   activeParentId (finalResults (tick net_A_down 0 three_hosts Map.empty) ! 2) = Some ''B'' \<and>
   activeParentId (finalResults (tick net_A_down 0 three_hosts Map.empty) ! 1) = Some ''A'' \<and>
   activeParentId (finalResults (tick net_all_up 0 three_hosts Map.empty) ! 2) = Some ''A'' \<and>
   length (snd (runMonitoring env_A_down (Some three_nodes))) = 3"
proof -
  note t = tick_resolves_on_full_statuses[where net = net_A_down and now = 0
      and hosts = three_hosts and stateStore = Map.empty and e = env_A_down
      and c = three_nodes and ns = "map as_monitored three_hosts"]
  have s: "map status (finalResults (tick net_A_down 0 three_hosts Map.empty)) =
     [Some False, Some True, Some True]"
    by code_simp
  have s0: "status (finalResults (tick net_A_down 0 three_hosts Map.empty) ! 0) \<noteq> Some True"
    and s1: "status (finalResults (tick net_A_down 0 three_hosts Map.empty) ! 1) = Some True"
    using arg_cong[OF s, of "\<lambda>xs. xs ! 0"] arg_cong[OF s, of "\<lambda>xs. xs ! 1"]
    by (simp_all add: tick_length three_hosts_def)
  have h: "(2::nat) < length three_hosts" "(1::nat) < length three_hosts"
    "(0::nat) < length three_hosts"
    "primaryParentId (three_hosts ! 2) = Some (node_id (three_hosts ! 0))"
    "secondaryParentId (three_hosts ! 2) = Some (node_id (three_hosts ! 1))"
    "node_id (three_hosts ! 1) \<noteq> []" "node_id (three_hosts ! 1) = ''B''"
    by (simp_all add: three_hosts_def hostA_def hostB_def hostAB_def)
  have c: "activeParentId (finalResults (tick net_A_down 0 three_hosts Map.empty) ! 2) =
      Some ''B''"
    using t[where i = 2 and j = 1 and k = 0, THEN conjunct2, THEN conjunct2, THEN conjunct1]
      h s0 s1 by simp
  have b: "activeParentId (finalResults (tick net_A_down 0 three_hosts Map.empty) ! 1) =
      Some ''A''"
    using arg_cong[OF t[THEN conjunct2, THEN conjunct2, THEN conjunct2, THEN conjunct1],
        of "\<lambda>xs. xs ! 1"]
    by (simp add: tick_length three_hosts_def)
  have u: "map status (finalResults (tick net_all_up 0 three_hosts Map.empty)) =
     [Some True, Some True, Some True]"
    by code_simp
  have u0: "status (finalResults (tick net_all_up 0 three_hosts Map.empty) ! 0) = Some True"
    using arg_cong[OF u, of "\<lambda>xs. xs ! 0"] by (simp add: tick_length three_hosts_def)
  have h0: "node_id (three_hosts ! 0) \<noteq> []" "node_id (three_hosts ! 0) = ''A''"
    by (simp_all add: three_hosts_def hostA_def)
  have a: "activeParentId (finalResults (tick net_all_up 0 three_hosts Map.empty) ! 2) =
      Some ''A''"
    using tick_resolves_on_full_statuses[where net = net_all_up and now = 0
        and hosts = three_hosts and stateStore = Map.empty and i = 2 and j = 0,
        THEN conjunct2, THEN conjunct1] h h0 u0
    by simp
  have j: "length (snd (runMonitoring env_A_down (Some three_nodes))) = 3"
    by code_simp
  show ?thesis using s c b a j by simp
qed

text \<open>
  C4 on the host-process scheduler: one run over A without parent, B with primary A and
  C with primary A and secondary B, with A down and B and C up, publishes the three
  fresh statuses, and no active parent for any of the three hosts, where the claim has A
  for B and B for C.
\<close>

theorem runMonitoring_resolves_no_parent:
  "(case fst (runMonitoring env_A_down (Some three_nodes)) of
      Published snap \<Rightarrow>
        map node_id (nodes snap) = [''A'', ''B'', ''C''] \<and>
        map status_field (nodes snap) = [Some False, Some True, Some True] \<and>
        map activeParentId_field (nodes snap) = [None, None, None]
    | Returned \<Rightarrow> False
    | Threw \<Rightarrow> False)"
  by code_simp

section \<open>Properties of the probes\<close>

lemma blank_address_examples:
  "IsNullOrWhiteSpace None" "IsNullOrWhiteSpace (Some [])"
  by (simp_all add: IsNullOrWhiteSpace_def)

lemma Test_PingFast_blank:
  "IsNullOrWhiteSpace a \<Longrightarrow> Test_PingFast net log a tm = (False, log)"
  by (simp add: Test_PingFast_def)

lemma Test_PortFast_blank:
  "IsNullOrWhiteSpace a \<Longrightarrow> Test_PortFast net log a p tm = (False, log)"
  by (simp add: Test_PortFast_def split: option.splits)

lemma checkEntry_blank:
  "IsNullOrWhiteSpace (address entry) \<Longrightarrow>
   checkEntry net entry (statuses, log) = (set_Item statuses (node_id entry) False, log)"
  by (simp add: checkEntry_def)

lemma checkEntry_ping:
  "\<not> IsNullOrWhiteSpace (address entry) \<Longrightarrow> port entry = None \<Longrightarrow>
   checkEntry net entry (statuses, log) =
     (set_Item statuses (node_id entry) (net log (Ping (address entry) pingTimeoutMs)),
      log @ [Ping (address entry) pingTimeoutMs])"
  by (simp add: checkEntry_def Test_PingFast_def)

lemma checkEntry_log_cases:
  "snd (checkEntry net entry (statuses, log)) = log \<or>
   snd (checkEntry net entry (statuses, log)) = log @ [Ping (address entry) pingTimeoutMs] \<and>
     port entry = None \<or>
   (\<exists>p. snd (checkEntry net entry (statuses, log)) =
          log @ [TcpConnect (address entry) p portTimeoutMs] \<and> port entry = Some p)"
  by (auto simp: checkEntry_def Test_PingFast_def Test_PortFast_def split: option.splits)

text \<open>
  The scripted monitor issues no call for a blank address: the log of an iteration holds
  only calls whose target is not blank.
\<close>

lemma checkEntry_targets:
  "list_all (\<lambda>c. \<not> IsNullOrWhiteSpace (target c)) (snd acc) \<Longrightarrow>
   list_all (\<lambda>c. \<not> IsNullOrWhiteSpace (target c)) (snd (checkEntry net entry acc))"
  by (auto simp: checkEntry_def Test_PingFast_def Test_PortFast_def target_def split_beta
      split: option.splits)

lemma performChecks_targets:
  "list_all (\<lambda>c. \<not> IsNullOrWhiteSpace (target c)) (snd acc) \<Longrightarrow>
   list_all (\<lambda>c. \<not> IsNullOrWhiteSpace (target c)) (snd (performChecks net hosts acc))"
  by (induction hosts arbitrary: acc) (simp_all add: checkEntry_targets)

lemma tick_never_probes_blank:
  "list_all (\<lambda>c. \<not> IsNullOrWhiteSpace (target c)) (io_log (tick net now hosts stateStore))"
  by (simp add: tick_io_log performChecks_targets)

text \<open>
  C5 on the host-process scheduler: a node whose address is the empty string and whose
  port is 80 is probed by a TCP connect, and a node whose address is \<^verbatim>\<open>null\<close> by a ping.
  Where TCP connects succeed, the node without address is published as reachable.
\<close>

theorem runMonitoring_probes_without_address:
  "runMonitoring env_listener
     (Some \<lparr> cfg_nodes = NodeArray [empty_address_node, null_address_node],
             interval = Some 2000 \<rparr>) =
   (Published
      \<lparr> nodes = [empty_address_node \<lparr> status_field := Some True, responseTime := Some 7 \<rparr>,
                 null_address_node \<lparr> status_field := Some False, responseTime := Some 7 \<rparr>],
        updated = ''12:00:00'' \<rparr>,
    [TcpConnect (Some []) 80 1000, Ping None 1000])"
  by code_simp

section \<open>Properties of the port normalisation\<close>

lemma normalizeNode_port:
  "normalizeNode toInt r = Inr entry \<Longrightarrow>
   normalizePort toInt (raw_port r) = Inr (port entry) \<and> address entry = raw_address r \<and>
   node_id entry = raw_id r"
  by (auto simp: normalizeNode_def split: sum.splits)

lemma normalizePort_empty:
  "p = PortNull \<or> p = PortString [] \<Longrightarrow> normalizePort toInt p = Inr None"
  by (auto simp: normalizePort_def)

lemma normalizePort_Some:
  "normalizePort toInt p = Inr (Some i) \<Longrightarrow> p \<noteq> PortNull \<and> p \<noteq> PortString []"
  by (auto simp: normalizePort_def split: raw_port.splits if_splits option.splits)

lemma checkEntry_tcp_port:
  "snd (checkEntry net entry (statuses, log)) = log @ [TcpConnect a p tm] \<Longrightarrow>
   port entry = Some p"
  using checkEntry_log_cases[of net entry statuses log] by auto

text \<open>
  C9: a raw node whose port is \<^verbatim>\<open>null\<close> or the empty string normalises without error to
  a node with port \<^verbatim>\<open>null\<close>, and the checks loop then probes it by one ping of its address
  (or by nothing when the address is blank), never by a TCP connect. A normalised port
  other than \<^verbatim>\<open>null\<close>, which is what selects the TCP probe, and a TCP connect that is
  issued, both need a raw port that was neither \<^verbatim>\<open>null\<close> nor the empty string.
\<close>

theorem empty_port_selects_ping:
  "(raw_port r = PortNull \<or> raw_port r = PortString [] \<longrightarrow>
      map_sum id port (normalizeNode toInt r) = Inr None \<and>
      (normalizeNode toInt r = Inr entry \<longrightarrow>
         port entry = None \<and>
         checkEntry net entry (statuses, log) =
           (if IsNullOrWhiteSpace (raw_address r)
            then (set_Item statuses (raw_id r) False, log)
            else (set_Item statuses (raw_id r) (net log (Ping (raw_address r) pingTimeoutMs)),
                  log @ [Ping (raw_address r) pingTimeoutMs])))) \<and>
   (normalizeNode toInt r = Inr entry \<and> port entry \<noteq> None \<longrightarrow>
      raw_port r \<noteq> PortNull \<and> raw_port r \<noteq> PortString []) \<and>
   (normalizeNode toInt r = Inr entry \<and>
    snd (checkEntry net entry (statuses, log)) = log @ [TcpConnect a p tm] \<longrightarrow>
      raw_port r \<noteq> PortNull \<and> raw_port r \<noteq> PortString [] \<and> port entry = Some p)"
proof (intro conjI impI)
  assume e: "raw_port r = PortNull \<or> raw_port r = PortString []"
  then show "map_sum id port (normalizeNode toInt r) = Inr None"
    by (auto simp: normalizeNode_def normalizePort_def)
  assume n: "normalizeNode toInt r = Inr entry"
  from normalizeNode_port[OF n] normalizePort_empty[OF e, of toInt]
  show p: "port entry = None" by simp
  from normalizeNode_port[OF n] p
  show "checkEntry net entry (statuses, log) =
           (if IsNullOrWhiteSpace (raw_address r)
            then (set_Item statuses (raw_id r) False, log)
            else (set_Item statuses (raw_id r) (net log (Ping (raw_address r) pingTimeoutMs)),
                  log @ [Ping (raw_address r) pingTimeoutMs]))"
    using checkEntry_blank[of entry net statuses log] checkEntry_ping[of entry net statuses log]
    by auto
next
  assume a: "normalizeNode toInt r = Inr entry \<and> port entry \<noteq> None"
  then obtain q where "normalizePort toInt (raw_port r) = Inr (Some q)"
    using normalizeNode_port[of toInt r entry] by auto
  then have "raw_port r \<noteq> PortNull \<and> raw_port r \<noteq> PortString []"
    by (rule normalizePort_Some)
  then show "raw_port r \<noteq> PortNull" "raw_port r \<noteq> PortString []"
    by simp_all
next
  assume a: "normalizeNode toInt r = Inr entry \<and>
    snd (checkEntry net entry (statuses, log)) = log @ [TcpConnect a p tm]"
  then have p: "port entry = Some p" using checkEntry_tcp_port by blast
  then have "normalizePort toInt (raw_port r) = Inr (Some p)"
    using a normalizeNode_port[of toInt r entry] by simp
  then have "raw_port r \<noteq> PortNull \<and> raw_port r \<noteq> PortString []"
    by (rule normalizePort_Some)
  then show "raw_port r \<noteq> PortNull" "raw_port r \<noteq> PortString []" "port entry = Some p"
    using p by simp_all
qed

text \<open>
  A node with the empty string as port is pinged at its address; a node with port "80" is
  probed by a TCP connect to port 80.
\<close>

theorem empty_port_selects_ping_witness:
  "(\<exists>entry. normalizeNode toInt80 rawEmptyPort = Inr entry \<and>
      snd (checkEntry net_A_down entry (Map.empty, [])) = [Ping (Some ''10.0.0.3'') 300]) \<and>
   (\<exists>entry. normalizeNode toInt80 rawPort80 = Inr entry \<and>
      snd (checkEntry net_A_down entry (Map.empty, [])) = [TcpConnect (Some ''10.0.0.3'') 80 300]) \<and>
   raw_port rawPort80 \<noteq> PortString []"
proof -
  obtain e1 where e1: "normalizeNode toInt80 rawEmptyPort = Inr e1"
    by (simp add: normalizeNode_def normalizePort_def rawEmptyPort_def rawLeaf_def)
  have p1: "raw_port rawEmptyPort = PortNull \<or> raw_port rawEmptyPort = PortString []"
    by (simp add: rawEmptyPort_def)
  have b1: "\<not> IsNullOrWhiteSpace (raw_address rawEmptyPort)"
    "raw_address rawEmptyPort = Some ''10.0.0.3''"
    by (simp_all add: rawEmptyPort_def rawLeaf_def IsNullOrWhiteSpace_def IsWhiteSpace_def)
  have c1: "snd (checkEntry net_A_down e1 (Map.empty, [])) = [Ping (Some ''10.0.0.3'') 300]"
    using empty_port_selects_ping[of rawEmptyPort toInt80 e1 net_A_down Map.empty "[]",
        THEN conjunct1] p1 e1 b1
    by (simp add: pingTimeoutMs_def)
  obtain e2 where e2: "normalizeNode toInt80 rawPort80 = Inr e2"
    by (simp add: normalizeNode_def normalizePort_def rawPort80_def rawLeaf_def toInt80_def)
  have c2: "snd (checkEntry net_A_down e2 (Map.empty, [])) =
      [] @ [TcpConnect (Some ''10.0.0.3'') 80 300]"
    using e2
    by (auto simp: normalizeNode_def normalizePort_def rawPort80_def rawLeaf_def toInt80_def
        checkEntry_def Test_PortFast_def IsNullOrWhiteSpace_def IsWhiteSpace_def
        portTimeoutMs_def)
  have "raw_port rawPort80 \<noteq> PortString []"
    using empty_port_selects_ping[of rawPort80 toInt80 e2 net_A_down Map.empty "[]"
        "Some ''10.0.0.3''" 80 300, THEN conjunct2, THEN conjunct2] e2 c2
    by blast
  then show ?thesis using e1 c1 e2 c2 by auto
qed

section \<open>Properties of the published host set\<close>

lemma tick_ids: "map node_id (finalResults (tick net now hosts stateStore)) = map node_id hosts"
  by (simp add: tick_finalResults processEntries_map processEntry_fields)

lemma tick_keeps_other_state:
  "hkey h \<notin> hkey ` node_id ` set hosts \<Longrightarrow>
   Item (stateStore_after (tick net now hosts stateStore)) h = Item stateStore h"
  by (simp add: tick_stateStore processEntries_store_other)

lemma ticks_ids:
  "map (map node_id) (ticks schedule stateStore) =
   map (\<lambda>(net, now, hosts). map node_id hosts) schedule"
  by (induction schedule stateStore rule: ticks.induct) (simp_all add: Let_def tick_ids)

lemma runMonitoring_ids:
  assumes "cfg_nodes c = NodeArray ns" and "fst (runMonitoring e (Some c)) = Published snap"
  shows "map node_id (nodes snap) = map node_id ns"
  by (rule probeAll_map[OF _ runMonitoring_Published[OF assms]])
    (auto simp: probeNode_def Let_def split: if_splits)

lemma start_enter_config: "monitoringConfig (start_enter cfg s) = cfg"
  by (simp add: start_enter_def Let_def split: option.splits)

lemma start_exit_config: "monitoringConfig (fst (start_exit cfg s)) = monitoringConfig s"
  by (simp add: start_exit_def Let_def split: option.splits)

lemma start_config: "monitoringConfig (fst (start cfg s)) = cfg"
  by (simp add: start_def Let_def start_enter_config start_exit_config)

lemma step_start_config: "monitoringConfig (fst (step s (StartCall cfg))) = cfg"
  by (simp add: step_def Let_def split_beta start_enter_config start_exit_config
      split: first_run.splits)

text \<open>
  A timer run that begins after a start call was handled publishes, if it publishes, the
  ids of that call's node array.
\<close>

lemma run_after_start_ids:
  assumes "cfg_nodes c = NodeArray ns"
    and "fst (timerFires e (fst (step s (StartCall (Some c))))) = Published snap"
  shows "map node_id (nodes snap) = map node_id ns"
  using assms unfolding timerFires_def step_start_config by (rule runMonitoring_ids)

text \<open>
  No call of a handler touches the timer runs in flight, and a run whose probes settle
  sends the results it holds, whatever the configuration is by then.
\<close>

lemma Handle_keeps_timer_runs: "timer_runs (pstep e m (Handle r)) = timer_runs m"
  by (simp add: pstep_def Let_def split: request.splits first_run.splits)

lemma Settle_sends:
  "k < length (timer_runs m) \<Longrightarrow>
   sent (pstep e m (Settle k)) = sent m @ [(timer_runs m ! k) \<lparr> updated := timeLabel e \<rparr>]"
  by (simp add: pstep_def send_def)

text \<open>
  C8 fails on the host-process scheduler. On the three hosts, with a timer run in flight
  when monitoring is stopped and started again without B, three snapshots are sent: A, B
  and C by the first run, A and C by the first run of the new call, and then A, B and C
  again by the timer run, although the configuration in force is the one without B and
  the only timer armed is the new one. The scripted monitor, given the same two lists in
  turn, publishes A, B and C and then A and C.
\<close>

theorem restart_publishes_removed_host:
  "map (\<lambda>snap. map node_id (nodes snap)) (sent (psteps quiet restart_in_flight)) =
     [[''A'', ''B'', ''C''], [''A'', ''C''], [''A'', ''B'', ''C'']] \<and>
   monitoringConfig (handlers (psteps quiet restart_in_flight)) = Some two_nodes \<and>
   cfg_nodes two_nodes = NodeArray (map as_monitored two_hosts) \<and>
   map node_id two_hosts = [''A'', ''C''] \<and>
   map fst (armed (handlers (psteps quiet restart_in_flight))) = [1] \<and>
   timer_runs (psteps quiet restart_in_flight) = [] \<and>
   map (map node_id)
     (ticks [(net_A_down, 0, three_hosts), (net_A_down, 10, two_hosts)] Map.empty) =
     [[''A'', ''B'', ''C''], [''A'', ''C'']]"
  by code_simp

section \<open>Properties of the published records\<close>

lemma tick_copies:
  "length (finalResults (tick net now hosts stateStore)) = length hosts"
  "map node_id (finalResults (tick net now hosts stateStore)) = map node_id hosts"
  "map name (finalResults (tick net now hosts stateStore)) = map name hosts"
  "map address (finalResults (tick net now hosts stateStore)) = map address hosts"
  "map port (finalResults (tick net now hosts stateStore)) = map port hosts"
  "map primaryParentId (finalResults (tick net now hosts stateStore)) =
     map primaryParentId hosts"
  "map secondaryParentId (finalResults (tick net now hosts stateStore)) =
     map secondaryParentId hosts"
  "map icon (finalResults (tick net now hosts stateStore)) = map icon hosts"
  "map iconType (finalResults (tick net now hosts stateStore)) = map iconType hosts"
  "map node_x (finalResults (tick net now hosts stateStore)) = map node_x hosts"
  "map node_y (finalResults (tick net now hosts stateStore)) = map node_y hosts"
  by (simp_all add: tick_finalResults processEntries_length processEntries_map
      processEntry_fields)







section \<open>Properties of start with a bad host list\<close>

lemma step_start: "first_run cfg \<noteq> Suspends \<Longrightarrow>
  step s (StartCall cfg) = (fst (start cfg s), Some (snd (start cfg s)))"
  by (cases "first_run cfg") (simp_all add: step_def start_def Let_def split_beta)

lemma first_run_cases:
  "cfg_nodes c = Missing \<Longrightarrow> first_run (Some c) = Completes"
  "cfg_nodes c = NotArray \<Longrightarrow> first_run (Some c) = Throws"
  "first_run None = Completes"
  by (simp_all add: first_run_def)

lemma start_enter_armed_eq:
  "armed (start_enter cfg s) =
     (case monitoringInterval s of None \<Rightarrow> armed s | Some h \<Rightarrow> clearInterval h (armed s))"
  by (simp add: start_enter_def Let_def split: option.splits)

text \<open>
  C6 (as amended): a start call whose configuration has no node list is accepted: it
  answers success, arms a timer, so the loop is Running, and its first run and every run
  of the timer return at once without a probe and without publishing. A start call whose
  node list is present but is no array, and a start call without a configuration object,
  are rejected: no timer is armed and no handle is consumed; the timer the variable held
  has been cleared before, so when calls do not overlap the loop is not Running
  afterwards.
\<close>

theorem start_with_bad_host_list:
  "(cfg_nodes c = Missing \<longrightarrow>
      snd (start (Some c) s) = Success \<and>
      Running (fst (start (Some c) s)) \<and>
      step s (StartCall (Some c)) = (fst (start (Some c) s), Some Success) \<and>
      runMonitoring e (Some c) = (Returned, []) \<and>
      timerFires e (fst (start (Some c) s)) = (Returned, [])) \<and>
   (cfg_nodes c = NotArray \<longrightarrow>
      snd (start (Some c) s) = Rejected \<and>
      step s (StartCall (Some c)) = (fst (start (Some c) s), Some Rejected) \<and>
      next_handle (fst (start (Some c) s)) = next_handle s \<and>
      armed (fst (start (Some c) s)) =
        (case monitoringInterval s of None \<Rightarrow> armed s | Some h \<Rightarrow> clearInterval h (armed s)) \<and>
      (single_timer s \<longrightarrow> \<not> Running (fst (start (Some c) s))) \<and>
      fst (runMonitoring e (Some c)) = Threw) \<and>
   (snd (start None s) = Rejected \<and>
    step s (StartCall None) = (fst (start None s), Some Rejected) \<and>
    next_handle (fst (start None s)) = next_handle s \<and>
    armed (fst (start None s)) =
      (case monitoringInterval s of None \<Rightarrow> armed s | Some h \<Rightarrow> clearInterval h (armed s)) \<and>
    (single_timer s \<longrightarrow> \<not> Running (fst (start None s))))"
proof (intro conjI impI)
  assume m: "cfg_nodes c = Missing"
  show "snd (start (Some c) s) = Success"
    by (rule start_missing_nodes(1)[OF m])
  show "Running (fst (start (Some c) s))"
    by (simp add: Running_def start_missing_nodes(2)[OF m])
  show "step s (StartCall (Some c)) = (fst (start (Some c) s), Some Success)"
    by (simp add: step_start first_run_cases(1)[OF m] start_missing_nodes(1)[OF m])
  show "runMonitoring e (Some c) = (Returned, [])"
    by (rule start_missing_nodes(4)[OF m])
  show "timerFires e (fst (start (Some c) s)) = (Returned, [])"
    by (simp add: timerFires_def start_def Let_def first_run_cases(1)[OF m] start_exit_def
        start_enter_def runMonitoring_def m split: option.splits)
next
  assume n: "cfg_nodes c = NotArray"
  then have r: "Some c = None \<or> first_run (Some c) = Throws"
    by (simp add: first_run_cases(2))
  show "snd (start (Some c) s) = Rejected"
    by (rule start_rejected(1)[OF r])
  show "step s (StartCall (Some c)) = (fst (start (Some c) s), Some Rejected)"
    by (simp add: step_start first_run_cases(2)[OF n] start_rejected(1)[OF r])
  show "next_handle (fst (start (Some c) s)) = next_handle s"
    by (rule start_rejected(3)[OF r])
  show "armed (fst (start (Some c) s)) =
        (case monitoringInterval s of None \<Rightarrow> armed s | Some h \<Rightarrow> clearInterval h (armed s))"
    by (simp add: start_rejected(2)[OF r] start_enter_armed_eq)
  show "fst (runMonitoring e (Some c)) = Threw"
    by (simp add: runMonitoring_def n)
  assume "single_timer s"
  then show "\<not> Running (fst (start (Some c) s))"
    by (simp add: Running_def start_rejected(2)[OF r] start_enter_armed)
next
  show "snd (start None s) = Rejected"
    by (simp add: start_def Let_def first_run_def start_exit_def)
  show "step s (StartCall None) = (fst (start None s), Some Rejected)"
    by (simp add: step_def start_def Let_def first_run_def start_exit_def)
  show "next_handle (fst (start None s)) = next_handle s"
    by (simp add: start_def Let_def first_run_def start_exit_def start_enter_frame)
  show a: "armed (fst (start None s)) =
      (case monitoringInterval s of None \<Rightarrow> armed s | Some h \<Rightarrow> clearInterval h (armed s))"
    by (simp add: start_def Let_def first_run_def start_exit_def start_enter_armed_eq)
  assume "single_timer s"
  then show "\<not> Running (fst (start None s))"
    using start_enter_armed[of s None]
    by (simp add: Running_def start_def Let_def first_run_def start_exit_def)
qed

text \<open>
  From Idle, the configuration without nodes starts the loop; the configuration whose
  nodes are no array is rejected and stops the loop that the three hosts had started.
\<close>

theorem start_with_bad_host_list_witness:
  "Running (fst (start (Some no_nodes_config) idle)) \<and>
   Running (fst (start (Some three_nodes) idle)) \<and>
   snd (start (Some bad_nodes_config) (fst (start (Some three_nodes) idle))) = Rejected \<and>
   \<not> Running (fst (start (Some bad_nodes_config) (fst (start (Some three_nodes) idle)))) \<and>
   \<not> Running (fst (start None (fst (start (Some three_nodes) idle))))"
proof -
  have m: "cfg_nodes no_nodes_config = Missing" by (simp add: no_nodes_config_def)
  have n: "cfg_nodes bad_nodes_config = NotArray" by (simp add: bad_nodes_config_def)
  have s: "single_timer (fst (start (Some three_nodes) idle))"
    by (rule start_single) (rule single_timer_idle)
  have r: "Running (fst (start (Some three_nodes) idle))"
    by code_simp
  show ?thesis
    using start_with_bad_host_list[where c = no_nodes_config and s = idle, THEN conjunct1] m
      start_with_bad_host_list[where c = bad_nodes_config
        and s = "fst (start (Some three_nodes) idle)", THEN conjunct2, THEN conjunct1]
      start_with_bad_host_list[where s = "fst (start (Some three_nodes) idle)",
        THEN conjunct2, THEN conjunct2] n s r
    by blast
qed

text \<open>
  The claim as stated fails: from Idle, a start call whose configuration has no node list
  answers success and leaves a timer armed with the default period.
\<close>

theorem start_without_host_list_counterexample:
  "snd (start (Some no_nodes_config) idle) = Success \<and>
   armed (fst (start (Some no_nodes_config) idle)) = [(0, 2000)] \<and>
   Running (fst (start (Some no_nodes_config) idle))"
  by (simp add: start_def Let_def first_run_def no_nodes_config_def start_exit_def
      start_enter_def idle_def Running_def)

section \<open>Properties of repeated start and stop\<close>

lemma stop_single: "single_timer s \<Longrightarrow> single_timer (fst (stop s))"
  by (simp add: single_timer_def stop_idle(1))

lemma calls_in_turn_single: "single_timer s \<Longrightarrow> single_timer (calls_in_turn s cs)"
  by (induction s cs rule: calls_in_turn.induct) (simp_all add: start_single stop_single)

lemma single_timer_length: "single_timer s \<Longrightarrow> length (armed s) \<le> 1"
  by (auto simp: single_timer_def split: list.splits)

text \<open>
  When the calls do not overlap, start and stop behave as the specification asks: at most
  one timer is armed at any time, a start while Running replaces the armed timer by a
  fresh one, and a stop, once or twice, answers success and leaves no timer armed.
\<close>

lemma calls_in_turn_single_flight:
  "length (armed (calls_in_turn idle cs)) \<le> 1"
  "armed (fst (stop (calls_in_turn idle cs))) = []"
  "snd (stop (calls_in_turn idle cs)) = Success"
  "stop (fst (stop (calls_in_turn idle cs))) = (fst (stop (calls_in_turn idle cs)), Success)"
  using calls_in_turn_single[OF single_timer_idle, of cs]
    single_timer_length[of "calls_in_turn idle cs"]
  by (simp_all add: stop_idle stop_twice)

lemma start_replaces_timer:
  assumes "single_timer s" and "first_run (Some c) \<noteq> Throws"
  shows "armed (fst (start (Some c) s)) =
         [(next_handle s, case interval c of None \<Rightarrow> 2000
                          | Some i \<Rightarrow> if i \<noteq> 0 then i else 2000)]"
  using start_accepted(2)[OF assms(2), of s] start_enter_armed[OF assms(1), of "Some c"]
  by simp

text \<open>
  C7 on overlapping calls: a second start call handled while the first still waits for
  its probes clears nothing, since no timer is armed yet; when both resume, each arms a
  timer, and the variable keeps the second handle only. Two timers are armed, and a stop
  call clears one of them: the loop is still Running after stop has returned.
\<close>

theorem overlapping_starts_arm_two_timers:
  "armed (run idle [StartCall (Some three_nodes), StartCall (Some three_nodes),
                    FirstRunSettles 0, FirstRunSettles 0]) = [(0, 2000), (1, 2000)] \<and>
   armed (run idle [StartCall (Some three_nodes), StartCall (Some three_nodes),
                    FirstRunSettles 0, FirstRunSettles 0, StopCall]) = [(0, 2000)] \<and>
   Running (run idle [StartCall (Some three_nodes), StartCall (Some three_nodes),
                      FirstRunSettles 0, FirstRunSettles 0, StopCall])"
  by code_simp

end
